theory Spec2Isabelle
  imports Main "HOL-Library.Word"
begin

unbundle bit_operations_syntax

section \<open>The kernel monitor of JOS (kern/monitor.c)\<close>

text \<open>
  A shallow embedding of the monitor commands \<open>backtrace\<close>, \<open>showmapping\<close>,
  \<open>setperm\<close> and \<open>dumpmem\<close>. All integers of the source are \<open>uint32_t\<close>
  (\<open>uintptr_t\<close>, \<open>size_t\<close>, \<open>pte_t\<close> and \<open>pde_t\<close> are the same type on this
  32-bit kernel), so they are 32-bit words: addition, subtraction, multiplication and
  shifts wrap around as the C operators do. A pointer is the address it holds, and the
  null pointer is the address 0.
\<close>

type_synonym u32 = "32 word"

subsection \<open>Macros of monitor.c\<close>

definition MIN_ADDR :: "u32 \<Rightarrow> u32 \<Rightarrow> u32" where
  "MIN_ADDR x y = (if x \<le> y then x else y)"

definition UNIT_LEN :: u32 where
  "UNIT_LEN = 4"

definition MAX_MEM :: u32 where
  "MAX_MEM = 0xffffffff"

subsection \<open>Macros of the kernel headers\<close>

text \<open>
  Modelled from the spec: the headers inc/mmu.h, inc/memlayout.h, inc/types.h and
  kern/pmap.h are not among the sources. The spec's translation structure has two levels
  (a directory entry governs a large span, a table entry one page), entries with a
  present, a writable and a user-accessible bit, and pages of 1024 four-byte units. The
  definitions of this subsection are the macros of those names as the x86 headers of this
  kernel give them: a 32-bit linear address is a 10-bit directory index, a 10-bit table
  index and a 12-bit page offset.
\<close>

text \<open>Modelled from the spec: \<open>PGSIZE\<close> (inc/mmu.h), the bytes of one page.\<close>

definition PGSIZE :: u32 where
  "PGSIZE = 4096"

text \<open>Modelled from the spec: \<open>PTE_P\<close> (inc/mmu.h), the present bit of an entry.\<close>

definition PTE_P :: u32 where
  "PTE_P = 0x001"

text \<open>Modelled from the spec: \<open>PTE_W\<close> (inc/mmu.h), the writable bit of an entry.\<close>

definition PTE_W :: u32 where
  "PTE_W = 0x002"

text \<open>Modelled from the spec: \<open>PTE_U\<close> (inc/mmu.h), the user-accessible bit of an entry.\<close>

definition PTE_U :: u32 where
  "PTE_U = 0x004"

text \<open>
  Modelled from the spec: \<open>KERNBASE\<close> (inc/memlayout.h), the kernel virtual address at
  which physical memory is mapped.
\<close>

definition KERNBASE :: u32 where
  "KERNBASE = 0xF0000000"

text \<open>
  Modelled from the spec: \<open>PDX(la)\<close> (inc/mmu.h), the directory index of a linear
  address, \<open>(la >> 22) & 0x3FF\<close>.
\<close>

definition PDX :: "u32 \<Rightarrow> u32" where
  "PDX la = drop_bit 22 la AND 0x3FF"

text \<open>
  Modelled from the spec: \<open>PTX(la)\<close> (inc/mmu.h), the table index of a linear address,
  \<open>(la >> 12) & 0x3FF\<close>.
\<close>

definition PTX :: "u32 \<Rightarrow> u32" where
  "PTX la = drop_bit 12 la AND 0x3FF"

text \<open>
  Modelled from the spec: \<open>PGOFF(la)\<close> (inc/mmu.h), the offset of a linear address in its
  page, \<open>la & 0xFFF\<close>.
\<close>

definition PGOFF :: "u32 \<Rightarrow> u32" where
  "PGOFF la = la AND 0xFFF"

text \<open>
  Modelled from the spec: \<open>PGNUM(la)\<close> (inc/mmu.h), the page number of an address,
  \<open>la >> 12\<close>.
\<close>

definition PGNUM :: "u32 \<Rightarrow> u32" where
  "PGNUM la = drop_bit 12 la"

text \<open>
  Modelled from the spec: \<open>PGADDR(d, t, o)\<close> (inc/mmu.h), the linear address built from
  a directory index, a table index and an offset, \<open>(d << 22 | t << 12 | o)\<close>. The
  shifts are 32-bit shifts and the parts are joined with bitwise or.
\<close>

definition PGADDR :: "u32 \<Rightarrow> u32 \<Rightarrow> u32 \<Rightarrow> u32" where
  "PGADDR d t ofs = push_bit 22 d OR push_bit 12 t OR ofs"

text \<open>
  Modelled from the spec: \<open>PTE_ADDR(pte)\<close> (inc/mmu.h), the physical base address held
  in an entry, \<open>pte & ~0xFFF\<close>.
\<close>

definition PTE_ADDR :: "u32 \<Rightarrow> u32" where
  "PTE_ADDR pte = pte AND NOT 0xFFF"

text \<open>
  Modelled from the spec: \<open>ROUNDDOWN(a, n)\<close> (inc/types.h), \<open>a - a % n\<close> on
  \<open>uint32_t\<close>.
\<close>

definition ROUNDDOWN :: "u32 \<Rightarrow> u32 \<Rightarrow> u32" where
  "ROUNDDOWN a n = a - a mod n"

subsection \<open>The state of the machine\<close>

text \<open>
  The monitor reads the stack, the page tables and the dumped memory through pointers
  and writes one page-table entry through a pointer, so memory is an explicit store: the
  32-bit word held at each kernel virtual address. Every address the monitor dereferences
  is the address of a \<open>uint32_t\<close> object; the model keeps one word per address and so
  takes the objects at different addresses to be different objects, which is the case for
  the 4-byte-aligned addresses of stack slots, of table entries and of the units of a
  dump. The globals \<open>kern_pgdir\<close> and \<open>npages\<close> of kern/pmap.c are fields of their
  own.
\<close>

record kstate =
  mem :: "u32 \<Rightarrow> u32"
  kern_pgdir :: u32
  npages :: u32

text \<open>
  A kernel panic (\<open>_panic\<close>) does not return to the command: it is a result of its own,
  holding the address the check refused.
\<close>

datatype panic = KADDR_panic u32 | PADDR_panic u32

text \<open>
  Modelled from the spec: \<open>KADDR(pa)\<close> (kern/pmap.h), the kernel virtual alias of a
  physical address; the kernel panics when the address lies in no installed page
  (\<open>PGNUM(pa) >= npages\<close>).
\<close>

definition KADDR :: "kstate \<Rightarrow> u32 \<Rightarrow> panic + u32" where
  "KADDR s pa = (if npages s \<le> PGNUM pa then Inl (KADDR_panic pa) else Inr (pa + KERNBASE))"

text \<open>
  Modelled from the spec: \<open>PADDR(kva)\<close> (kern/pmap.h), the physical address of a kernel
  virtual address; the kernel panics when the address is below \<open>KERNBASE\<close>.
\<close>

definition PADDR :: "u32 \<Rightarrow> panic + u32" where
  "PADDR kva = (if kva < KERNBASE then Inl (PADDR_panic kva) else Inr (kva - KERNBASE))"

text \<open>
  Modelled from the spec: \<open>pgdir_walk(pgdir, va, 0)\<close> (kern/pmap.c) is not among the
  sources. It is the address-space manager's two-level walk without allocation: the
  directory entry of \<open>va\<close> is \<open>pgdir[PDX(va)]\<close>; when it is not present the walk returns
  the null pointer, otherwise it returns the address of entry \<open>PTX(va)\<close> of the page
  table whose physical base the directory entry holds, seen through the kernel's alias of
  physical memory. The walk only reads.
\<close>

definition pgdir_walk :: "kstate \<Rightarrow> u32 \<Rightarrow> u32 \<Rightarrow> u32" where
  "pgdir_walk s pgdir va =
     (let pde = mem s (pgdir + 4 * PDX va) in
      if pde AND PTE_P = 0 then 0
      else PTE_ADDR pde + KERNBASE + 4 * PTX va)"

subsection \<open>Output\<close>

text \<open>
  What a command prints is the list of its \<open>cprintf\<close> calls, one constructor per format
  string, holding the arguments of the call in their order.
\<close>

datatype out =
    Stack_backtrace
  | Frame_line u32 u32 "u32 list"
  | Debug_line string int int string u32
  | PA_line u32 u32 u32
  | PA_no_mapping
  | Start_end u32 u32
  | VA_prefix u32
  | Perm_set u32 u32
  | No_mapping_at u32
  | Range_out_of_memory
  | Phys_unit u32 u32
  | Virt_unmapped u32
  | Virt_mapped u32 u32 u32

text \<open>
  \<^item> \<open>Stack_backtrace\<close>: \<^verbatim>\<open>"Stack backtrace:\n"\<close>;
  \<^item> \<open>Frame_line ebp eip args\<close>: \<^verbatim>\<open>"  ebp %08x  eip %08x  args %08x %08x %08x %08x %08x\n"\<close>;
  \<^item> \<open>Debug_line file line namelen name offset\<close>: \<^verbatim>\<open>"         %s:%d: %.*s+%d\n"\<close>;
  \<^item> \<open>PA_line pa w u\<close>: \<^verbatim>\<open>"PA: 0x%08x\tPTE_W: %d\tPTE_U: %d\n"\<close>, and with \<open>w = u = 0\<close>
    also the text of \<^verbatim>\<open>"PA: 0x%08x\tPTE_W: 0\tPTE_U: 0\n"\<close>;
  \<^item> \<open>PA_no_mapping\<close>: \<^verbatim>\<open>"PA: No Mapping\n"\<close>;
  \<^item> \<open>Start_end a b\<close>: \<^verbatim>\<open>"start_addr: %08x\tend_addr: %08x\n"\<close>;
  \<^item> \<open>VA_prefix va\<close>: \<^verbatim>\<open>"VA: 0x%08x\t"\<close>;
  \<^item> \<open>Perm_set perm va\<close>: \<^verbatim>\<open>"Permission 0x%08x has been set at 0x%08x\n"\<close>;
  \<^item> \<open>No_mapping_at va\<close>: \<^verbatim>\<open>"There's no mapping at 0x%08x\n"\<close>;
  \<^item> \<open>Range_out_of_memory\<close>: \<^verbatim>\<open>"Range out of memory!\n"\<close>;
  \<^item> \<open>Phys_unit pa content\<close>: \<^verbatim>\<open>"PA: 0x%08x\tContent: %02x\n"\<close>;
  \<^item> \<open>Virt_unmapped va\<close>: \<^verbatim>\<open>"VA: 0x%08x\tPA: No mapping\tContent: None\n"\<close>;
  \<^item> \<open>Virt_mapped va pa content\<close>: \<^verbatim>\<open>"VA: 0x%08x\tPA: 0x%08x\tContent: %02x\n"\<close>.
\<close>

subsection \<open>backtrace\<close>

text \<open>
  What \<open>debuginfo_eip\<close> (kern/kdebug.c, the symbol resolver) leaves in the
  \<open>struct Eipdebuginfo\<close> it is given. The resolver is a parameter of the command.
\<close>

record Eipdebuginfo =
  eip_file :: string
  eip_line :: int
  eip_fn_name :: string
  eip_fn_namelen :: int
  eip_fn_addr :: u32

text \<open>
  The body of the \<open>while\<close> loop of \<open>mon_backtrace\<close> for the frame at \<open>ebp\<close>: the two
  lines it prints. \<open>ebp\<close> is a \<open>uint32_t *\<close>, so \<open>ebp + k\<close> is \<open>4 * k\<close> bytes above it.
\<close>

definition backtrace_frame :: "(u32 \<Rightarrow> Eipdebuginfo) \<Rightarrow> kstate \<Rightarrow> u32 \<Rightarrow> out list" where
  "backtrace_frame debuginfo_eip s ebp =
     (let eip = mem s (ebp + 4);
          info = debuginfo_eip eip
      in [Frame_line ebp eip
            [mem s (ebp + 8), mem s (ebp + 12), mem s (ebp + 16), mem s (ebp + 20),
             mem s (ebp + 24)],
          Debug_line (eip_file info) (eip_line info) (eip_fn_namelen info) (eip_fn_name info)
            (eip - eip_fn_addr info)])"

text \<open>
  The loop \<open>while (ebp) { ...; ebp = (uint32_t * )( *ebp); }\<close>. Nothing bounds it: on a
  cyclic chain it never returns, which is the value \<open>None\<close>.
\<close>

partial_function (option) backtrace_loop ::
  "(u32 \<Rightarrow> Eipdebuginfo) \<Rightarrow> kstate \<Rightarrow> u32 \<Rightarrow> out list \<Rightarrow> out list option" where
  "backtrace_loop debuginfo_eip s ebp acc =
     (if ebp \<noteq> 0
      then backtrace_loop debuginfo_eip s (mem s ebp) (acc @ backtrace_frame debuginfo_eip s ebp)
      else Some acc)"

text \<open>\<open>mon_backtrace\<close>, with the value \<open>read_ebp()\<close> returns as the argument \<open>ebp\<close>.\<close>

definition mon_backtrace :: "(u32 \<Rightarrow> Eipdebuginfo) \<Rightarrow> kstate \<Rightarrow> u32 \<Rightarrow> out list option" where
  "mon_backtrace debuginfo_eip s ebp = backtrace_loop debuginfo_eip s ebp [Stack_backtrace]"

subsection \<open>showmapping\<close>

text \<open>
  \<open>print_pte\<close>: the line printed for the pointer the walk returned. \<open>!!(x)\<close> is 1 when
  \<open>x\<close> is not zero and 0 otherwise.
\<close>

definition print_pte :: "kstate \<Rightarrow> u32 \<Rightarrow> panic + out" where
  "print_pte s pte =
     (if pte \<noteq> 0 \<and> mem s pte AND PTE_P \<noteq> 0 then
        Inr (PA_line (PTE_ADDR (mem s pte))
               (if mem s pte AND PTE_W \<noteq> 0 then 1 else 0)
               (if mem s pte AND PTE_U \<noteq> 0 then 1 else 0))
      else if pte = kern_pgdir s then
        (case PADDR (kern_pgdir s) of
           Inl p \<Rightarrow> Inl p
         | Inr pa \<Rightarrow> Inr (PA_line pa 0 0))
      else Inr PA_no_mapping)"

text \<open>
  The loop \<open>for (; start_addr <= end_addr; start_addr += PGSIZE)\<close> of
  \<open>mon_showmapping\<close>. A run that never returns is \<open>None\<close>; a run the kernel panics in
  ends with the panic.
\<close>

partial_function (option) showmapping_loop ::
  "kstate \<Rightarrow> u32 \<Rightarrow> u32 \<Rightarrow> out list \<Rightarrow> (panic + out list) option" where
  "showmapping_loop s start_addr end_addr acc =
     (if start_addr \<le> end_addr then
        (case print_pte s (pgdir_walk s (kern_pgdir s) start_addr) of
           Inl p \<Rightarrow> Some (Inl p)
         | Inr line \<Rightarrow>
             showmapping_loop s (start_addr + PGSIZE) end_addr
               (acc @ [VA_prefix start_addr, line]))
      else Some (Inr acc))"

text \<open>
  \<open>mon_showmapping\<close>, from the two numbers \<open>hex2uint\<close> read from the command line.
\<close>

definition mon_showmapping :: "kstate \<Rightarrow> u32 \<Rightarrow> u32 \<Rightarrow> (panic + out list) option" where
  "mon_showmapping s start_addr0 end_addr0 =
     (let start_addr = ROUNDDOWN start_addr0 PGSIZE;
          end_addr = ROUNDDOWN end_addr0 PGSIZE
      in showmapping_loop s start_addr end_addr [Start_end start_addr end_addr])"

subsection \<open>setperm\<close>

text \<open>
  \<open>mon_setperm\<close>, from the two numbers \<open>hex2uint\<close> read from the command line: the
  state it leaves and what it prints. The store \<open>*pte = ...\<close> is the only write of the
  monitor.
\<close>

definition mon_setperm :: "kstate \<Rightarrow> u32 \<Rightarrow> u32 \<Rightarrow> kstate \<times> out list" where
  "mon_setperm s va perm0 =
     (let perm = perm0 AND 0xfff;
          pte = pgdir_walk s (kern_pgdir s) va
      in if pte \<noteq> 0 \<and> mem s pte AND PTE_P \<noteq> 0 then
           (s\<lparr>mem := (mem s)(pte := (mem s pte AND NOT 0xfff) OR perm OR PTE_P)\<rparr>,
            [Perm_set perm va])
         else (s, [No_mapping_at va]))"

subsection \<open>dumpmem\<close>

text \<open>The loop \<open>for (; start_pa < next_addr; start_pa += 4)\<close> of \<open>dump_physmem\<close>.\<close>

partial_function (option) dump_physmem_loop ::
  "kstate \<Rightarrow> u32 \<Rightarrow> u32 \<Rightarrow> out list \<Rightarrow> (panic + out list) option" where
  "dump_physmem_loop s start_pa next_addr acc =
     (if start_pa < next_addr then
        (case KADDR s start_pa of
           Inl p \<Rightarrow> Some (Inl p)
         | Inr kva \<Rightarrow>
             dump_physmem_loop s (start_pa + 4) next_addr
               (acc @ [Phys_unit start_pa (mem s kva)]))
      else Some (Inr acc))"

definition dump_physmem :: "kstate \<Rightarrow> u32 \<Rightarrow> u32 \<Rightarrow> (panic + out list) option" where
  "dump_physmem s start_pa n =
     (if npages s * PGSIZE < start_pa + n then Some (Inr [Range_out_of_memory])
      else
        (let end_pa = start_pa + n;
             next_addr = MIN_ADDR end_pa (MAX_MEM - KERNBASE + 1)
         in dump_physmem_loop s start_pa next_addr []))"

text \<open>
  The inner loops \<open>for (; start_va < next_addr; start_va += UNIT_LEN)\<close> of
  \<open>dump_virtmem\<close>. They return the \<open>start_va\<close> they stop at with the output. The first
  two branches of \<open>dump_virtmem\<close> hold the same loop, which is \<open>dump_unmapped_loop\<close>.
\<close>

partial_function (option) dump_unmapped_loop ::
  "u32 \<Rightarrow> u32 \<Rightarrow> out list \<Rightarrow> (u32 \<times> out list) option" where
  "dump_unmapped_loop start_va next_addr acc =
     (if start_va < next_addr
      then dump_unmapped_loop (start_va + UNIT_LEN) next_addr (acc @ [Virt_unmapped start_va])
      else Some (start_va, acc))"

partial_function (option) dump_mapped_loop ::
  "kstate \<Rightarrow> u32 \<Rightarrow> u32 \<Rightarrow> u32 \<Rightarrow> out list \<Rightarrow> (u32 \<times> out list) option" where
  "dump_mapped_loop s pte start_va next_addr acc =
     (if start_va < next_addr
      then dump_mapped_loop s pte (start_va + UNIT_LEN) next_addr
             (acc @ [Virt_mapped start_va (PTE_ADDR (mem s pte) OR PGOFF start_va)
                       (mem s start_va)])
      else Some (start_va, acc))"

text \<open>The loop \<open>while (start_va < end_va)\<close> of \<open>dump_virtmem\<close>.\<close>

partial_function (option) dump_virtmem_loop ::
  "kstate \<Rightarrow> u32 \<Rightarrow> u32 \<Rightarrow> out list \<Rightarrow> out list option" where
  "dump_virtmem_loop s start_va end_va acc =
     (if start_va < end_va then
        (let pte = pgdir_walk s (kern_pgdir s) start_va in
         if pte = 0 then
           Option.bind
             (dump_unmapped_loop start_va
                (MIN_ADDR end_va (PGADDR (PDX start_va + 1) 0 0)) acc)
             (\<lambda>(va, acc'). dump_virtmem_loop s va end_va acc')
         else if mem s pte AND PTE_P = 0 then
           Option.bind
             (dump_unmapped_loop start_va
                (MIN_ADDR end_va (PGADDR (PDX start_va) (PTX start_va + 1) 0)) acc)
             (\<lambda>(va, acc'). dump_virtmem_loop s va end_va acc')
         else
           Option.bind
             (dump_mapped_loop s pte start_va
                (MIN_ADDR end_va (PGADDR (PDX start_va) (PTX start_va + 1) 0)) acc)
             (\<lambda>(va, acc'). dump_virtmem_loop s va end_va acc'))
      else Some acc)"

definition dump_virtmem :: "kstate \<Rightarrow> u32 \<Rightarrow> u32 \<Rightarrow> out list option" where
  "dump_virtmem s start_va n = dump_virtmem_loop s start_va (start_va + n) []"

text \<open>
  \<open>mon_dumpmemory\<close>, from its parsed arguments: \<open>phys\<close> is whether the first argument
  starts with \<open>p\<close>, \<open>start_addr0\<close> is what \<open>hex2uint\<close> read and \<open>n0\<close> what
  \<open>dec2uint\<close> read (the number of 4-byte units).
\<close>

definition mon_dumpmemory :: "kstate \<Rightarrow> bool \<Rightarrow> u32 \<Rightarrow> u32 \<Rightarrow> (panic + out list) option" where
  "mon_dumpmemory s phys start_addr0 n0 =
     (let start_addr = ROUNDDOWN start_addr0 UNIT_LEN;
          n = n0 * UNIT_LEN
      in if phys then dump_physmem s start_addr n
         else map_option Inr (dump_virtmem s start_addr n))"

section \<open>Notions the properties are stated with\<close>

text \<open>
  A frame chain: the frame bases met from \<open>ebp\<close> on, each not zero and each holding the
  next one in its first word, up to a saved frame base that reads as zero.
\<close>

fun frame_chain :: "kstate \<Rightarrow> u32 \<Rightarrow> u32 list \<Rightarrow> bool" where
  "frame_chain s ebp [] = (ebp = 0)"
| "frame_chain s ebp (b # bs) = (ebp = b \<and> b \<noteq> 0 \<and> frame_chain s (mem s b) bs)"

text \<open>The frame bases of the frames a backtrace reports, in the order of the report.\<close>

fun frame_bases :: "out list \<Rightarrow> u32 list" where
  "frame_bases [] = []"
| "frame_bases (Frame_line ebp eip args # ls) = ebp # frame_bases ls"
| "frame_bases (l # ls) = frame_bases ls"

text \<open>
  The addresses \<open>a\<close>, \<open>a + 4\<close>, \<open>a + 8\<close>, ... that are below \<open>b\<close>: the 4-byte
  units of the range from \<open>a\<close> to \<open>b\<close>, in increasing order, each once. The list is
  empty when \<open>b \<le> a\<close>.
\<close>

definition units :: "u32 \<Rightarrow> u32 \<Rightarrow> u32 list" where
  "units a b = map (\<lambda>i. a + 4 * of_nat i) [0..<(unat b - unat a + 3) div 4]"

text \<open>
  The page addresses \<open>a\<close>, \<open>a + PGSIZE\<close>, ... up to \<open>b\<close>, with \<open>b\<close> itself when it is
  one of them: the pages from \<open>a\<close> through \<open>b\<close>, both ends included. The list is empty
  when \<open>b < a\<close>.
\<close>

definition pages :: "u32 \<Rightarrow> u32 \<Rightarrow> u32 list" where
  "pages a b =
     (if a \<le> b then map (\<lambda>i. a + PGSIZE * of_nat i) [0..<Suc ((unat b - unat a) div 4096)]
      else [])"

text \<open>
  The line \<open>print_pte\<close> prints when it does not panic: the three branches of
  \<open>print_pte\<close>, with the physical address of the page directory computed without the
  check of \<open>PADDR\<close>.
\<close>

definition pte_line :: "kstate \<Rightarrow> u32 \<Rightarrow> out" where
  "pte_line s pte =
     (if pte \<noteq> 0 \<and> mem s pte AND PTE_P \<noteq> 0 then
        PA_line (PTE_ADDR (mem s pte))
          (if mem s pte AND PTE_W \<noteq> 0 then 1 else 0)
          (if mem s pte AND PTE_U \<noteq> 0 then 1 else 0)
      else if pte = kern_pgdir s then PA_line (kern_pgdir s - KERNBASE) 0 0
      else PA_no_mapping)"

text \<open>
  The record of a virtual-mode dump for the unit at \<open>va\<close>, decided by the walk of \<open>va\<close>
  itself: no mapping when the walk finds no entry or an entry that is not present,
  otherwise the physical address (the base held in the entry, or-ed with the offset of
  \<open>va\<close> in its page) and the word at \<open>va\<close>.
\<close>

definition virt_record :: "kstate \<Rightarrow> u32 \<Rightarrow> out" where
  "virt_record s va =
     (let pte = pgdir_walk s (kern_pgdir s) va in
      if pte = 0 \<or> mem s pte AND PTE_P = 0 then Virt_unmapped va
      else Virt_mapped va (PTE_ADDR (mem s pte) OR PGOFF va) (mem s va))"

text \<open>
  The addresses at which the index that \<open>dump_virtmem\<close> adds one to is the last of
  its field:
  the directory index \<open>0x3FF\<close> when the walk returns the null pointer, and otherwise the
  table index \<open>0x3FF\<close> under an odd directory index (\<open>PTX + 1 = 0x400\<close> is then or-ed
  onto bit 22, which the directory index already sets).
\<close>

definition index_carry :: "kstate \<Rightarrow> u32 \<Rightarrow> bool" where
  "index_carry s va =
     (if pgdir_walk s (kern_pgdir s) va = 0 then PDX va = 0x3FF
      else PTX va = 0x3FF \<and> odd (PDX va))"

text \<open>
  The walk of \<open>va\<close> returns the null pointer only when the directory entry of \<open>va\<close> is
  not present. (In the model of \<open>pgdir_walk\<close> the address of a table entry can also be 0,
  when the kernel alias of the table wraps around: for a table at the physical address
  \<open>0x10000000\<close>, which is beyond the 256 MB the kernel maps.)
\<close>

definition null_is_absent :: "kstate \<Rightarrow> u32 \<Rightarrow> bool" where
  "null_is_absent s va =
     (pgdir_walk s (kern_pgdir s) va = 0 \<longrightarrow> mem s (kern_pgdir s + 4 * PDX va) AND PTE_P = 0)"

section \<open>States the properties are tried on\<close>

text \<open>
  A page directory at \<open>0xF0110000\<close> with three directory entries. Entry 0 leads to a
  table that maps the page at \<open>0x1000\<close> to the physical page \<open>0x5000\<close>, writable and
  user-accessible, and nothing else. Entry 1 leads to a table with no present entry.
  Entry \<open>0x3BF\<close> leads to a table that maps the page at \<open>0xEFFFF000\<close> (the top page
  of the kernel stack) to the physical page \<open>0x10F000\<close>. Two stack frames lie in that
  physical page, at \<open>0xF010FF58\<close> and \<open>0xF010FF78\<close> in the kernel's window on physical
  memory. A word of a mapped page is listed at each of its addresses; every word that is
  not listed is 0. 128 MB of memory are installed.
\<close>

definition example_state :: kstate where
  "example_state =
     \<lparr>mem = (\<lambda>a. 0)
        (0xF0110000 := 0x00111007, 0xF0111004 := 0x00005007,
         0xF0110004 := 0x00112007,
         0xF0110EFC := 0x00113003, 0xF0113FFC := 0x0010F003,
         0x00001000 := 0x464C457F, 0x00001004 := 0x00010101,
         0xF0005000 := 0x464C457F, 0xF0005004 := 0x00010101,
         0xF010FF58 := 0xF010FF78, 0xF010FF5C := 0xF0100A62,
         0xF010FF60 := 1, 0xF010FF64 := 2, 0xF010FF68 := 3, 0xF010FF6C := 4,
         0xF010FF70 := 5,
         0xF010FF78 := 0, 0xF010FF7C := 0xF010003E,
         0xF010FF80 := 6, 0xF010FF84 := 7, 0xF010FF88 := 8, 0xF010FF8C := 9,
         0xF010FF90 := 10,
         0xEFFFFF58 := 0xF010FF78, 0xEFFFFF5C := 0xF0100A62,
         0xEFFFFF60 := 1, 0xEFFFFF64 := 2, 0xEFFFFF68 := 3, 0xEFFFFF6C := 4,
         0xEFFFFF70 := 5,
         0xEFFFFF78 := 0, 0xEFFFFF7C := 0xF010003E,
         0xEFFFFF80 := 6, 0xEFFFFF84 := 7, 0xEFFFFF88 := 8, 0xEFFFFF8C := 9,
         0xEFFFFF90 := 10),
      kern_pgdir = 0xF0110000,
      npages = 0x8000\<rparr>"

text \<open>A resolver that places every address in one function starting at \<open>0xF0100A00\<close>.\<close>

definition example_debuginfo :: "u32 \<Rightarrow> Eipdebuginfo" where
  "example_debuginfo eip =
     \<lparr>eip_file = ''kern/monitor.c'', eip_line = 143, eip_fn_name = ''monitor'',
      eip_fn_namelen = 7, eip_fn_addr = 0xF0100A00\<rparr>"

text \<open>
  A page directory at \<open>0xF0110000\<close> whose only entry is entry \<open>0x3BD\<close>, which holds
  the physical address of the directory itself: the directory is its own page table for
  the 4 MB at \<open>0xEF400000\<close>.
\<close>

definition uvpt_state :: kstate where
  "uvpt_state =
     \<lparr>mem = (\<lambda>a. 0)(0xF0110EF4 := 0x00110005),
      kern_pgdir = 0xF0110000,
      npages = 0x8000\<rparr>"

section \<open>setperm\<close>

lemma fff_mask: "(0xFFF :: u32) = mask 12"
  by (simp add: mask_eq_exp_minus_1)

lemma PTE_P_neq0: "PTE_P \<noteq> 0"
  by (simp add: PTE_P_def)

lemma setperm_entry_present:
  "((e AND NOT 0xfff) OR p OR PTE_P) AND PTE_P = PTE_P"
  unfolding PTE_P_def fff_mask
  by (rule bit_eqI) (auto simp add: bit_simps)

lemma setperm_entry_addr:
  "PTE_ADDR ((e AND NOT 0xfff) OR (bits AND 0xfff) OR PTE_P) = PTE_ADDR e"
  unfolding PTE_ADDR_def PTE_P_def fff_mask
  by (rule bit_eqI) (auto simp add: bit_simps)

lemma setperm_entry_perm:
  "((e AND NOT 0xfff) OR (bits AND 0xfff) OR PTE_P) AND 0xfff = (bits AND 0xfff) OR PTE_P"
  unfolding PTE_P_def fff_mask
  by (rule bit_eqI) (auto simp add: bit_simps)

lemma ffe_mask: "(0xFFE :: u32) = mask 12 AND NOT 1"
  by (simp add: mask_eq_exp_minus_1)

lemma setperm_entry_flags:
  "((e AND NOT 0xfff) OR (bits AND 0xfff) OR PTE_P) AND 0xffe = bits AND 0xffe"
  unfolding PTE_P_def fff_mask ffe_mask
  by (rule bit_eqI) (auto simp add: bit_simps)

text \<open>
  A store to the entry the walk of \<open>va\<close> ends at does not move that walk when the new
  entry is present and holds the same physical base: this matters when the entry is
  itself the directory entry of \<open>va\<close>.
\<close>

lemma pgdir_walk_store:
  assumes "pgdir_walk s pgdir va = pte" "pte \<noteq> 0"
    and "new AND PTE_P \<noteq> 0" "PTE_ADDR new = PTE_ADDR (mem s pte)"
  shows "pgdir_walk (s\<lparr>mem := (mem s)(pte := new)\<rparr>) pgdir va = pte"
proof -
  let ?a = "pgdir + 4 * PDX va"
  from assms(1,2) have pde: "mem s ?a AND PTE_P \<noteq> 0"
    and pte: "pte = PTE_ADDR (mem s ?a) + KERNBASE + 4 * PTX va"
    by (auto simp add: pgdir_walk_def Let_def split: if_splits)
  show ?thesis
  proof (cases "pte = ?a")
    case True
    then have "mem s pte = mem s ?a" by simp
    with True pte assms(3,4) show ?thesis
      by (simp add: pgdir_walk_def Let_def)
  next
    case False
    with pde pte show ?thesis
      by (simp add: pgdir_walk_def Let_def)
  qed
qed

text \<open>
  C4. When the walk of \<open>va\<close> ends at an entry that is present, then after
  \<open>mon_setperm\<close> the walk of \<open>va\<close> ends at the same entry; the entry is present,
  whether or not the supplied bits hold the present bit; the other eleven bits of its
  permission field (the low twelve bits) are those of the supplied bits, so that the
  field is the supplied bits masked to the field together with the present bit; and its
  physical base is the one it held before.
\<close>

theorem mon_setperm_lookup:
  assumes walk: "pgdir_walk s (kern_pgdir s) va = pte"
    and present: "pte \<noteq> 0" "mem s pte AND PTE_P \<noteq> 0"
    and run: "mon_setperm s va bits = (s', out)"
  shows "pgdir_walk s' (kern_pgdir s') va = pte
       \<and> mem s' pte AND PTE_P \<noteq> 0
       \<and> mem s' pte AND 0xffe = bits AND 0xffe
       \<and> mem s' pte AND 0xfff = (bits AND 0xfff) OR PTE_P
       \<and> PTE_ADDR (mem s' pte) = PTE_ADDR (mem s pte)
       \<and> out = [Perm_set (bits AND 0xfff) va]"
proof -
  define new where "new = (mem s pte AND NOT 0xfff) OR (bits AND 0xfff) OR PTE_P"
  have s': "s' = s\<lparr>mem := (mem s)(pte := new)\<rparr>"
    and out: "out = [Perm_set (bits AND 0xfff) va]"
    using walk present run unfolding new_def by (simp_all add: mon_setperm_def Let_def)
  have p: "new AND PTE_P \<noteq> 0"
    unfolding new_def by (simp only: setperm_entry_present) (rule PTE_P_neq0)
  have a: "PTE_ADDR new = PTE_ADDR (mem s pte)"
    unfolding new_def by (rule setperm_entry_addr)
  have f: "new AND 0xfff = (bits AND 0xfff) OR PTE_P"
    unfolding new_def by (rule setperm_entry_perm)
  have g: "new AND 0xffe = bits AND 0xffe"
    unfolding new_def by (rule setperm_entry_flags)
  have w: "pgdir_walk s' (kern_pgdir s') va = pte"
    using pgdir_walk_store [OF walk present(1) p a] by (simp add: s')
  have m: "mem s' pte = new" by (simp add: s')
  show ?thesis
    unfolding m using w p a f g out by blast
qed

text \<open>
  The page at \<open>0x1000\<close> of the example is writable and user-accessible (entry
  \<open>0x5007\<close>); \<open>setperm 0x1000 0x2\<close> leaves the entry \<open>0x5003\<close>: writable, present,
  the same physical page.
\<close>

theorem mon_setperm_lookup_witness:
  "pgdir_walk example_state (kern_pgdir example_state) 0x1000 = 0xF0111004
   \<and> mem example_state 0xF0111004 = 0x5007
   \<and> pgdir_walk (fst (mon_setperm example_state 0x1000 0x2))
        (kern_pgdir (fst (mon_setperm example_state 0x1000 0x2))) 0x1000 = 0xF0111004
   \<and> mem (fst (mon_setperm example_state 0x1000 0x2)) 0xF0111004 = 0x5003
   \<and> snd (mon_setperm example_state 0x1000 0x2) = [Perm_set 0x2 0x1000]"
proof -
  have walk: "pgdir_walk example_state (kern_pgdir example_state) 0x1000 = 0xF0111004"
    by (simp add: example_state_def pgdir_walk_def PDX_def PTX_def PTE_P_def PTE_ADDR_def
        KERNBASE_def)
  have entry: "mem example_state 0xF0111004 = 0x5007"
    by (simp add: example_state_def)
  have present: "(0xF0111004 :: u32) \<noteq> 0" "mem example_state 0xF0111004 AND PTE_P \<noteq> 0"
    by (simp_all add: entry PTE_P_def)
  have run: "mon_setperm example_state 0x1000 0x2 =
      (fst (mon_setperm example_state 0x1000 0x2), snd (mon_setperm example_state 0x1000 0x2))"
    by simp
  have new: "mem (fst (mon_setperm example_state 0x1000 0x2)) 0xF0111004 = 0x5003"
    by (simp add: mon_setperm_def walk entry PTE_P_def)
  from mon_setperm_lookup [OF walk present run] walk entry new show ?thesis
    by simp
qed

text \<open>
  C5. When the walk of \<open>va\<close> finds no entry, or an entry that is not present,
  \<open>mon_setperm\<close> prints that there is no mapping at \<open>va\<close> and leaves the whole state,
  the page tables with it, as it was.
\<close>

theorem mon_setperm_not_mapped:
  assumes "\<not> (pgdir_walk s (kern_pgdir s) va \<noteq> 0
              \<and> mem s (pgdir_walk s (kern_pgdir s) va) AND PTE_P \<noteq> 0)"
  shows "mon_setperm s va bits = (s, [No_mapping_at va])"
  using assms by (auto simp add: mon_setperm_def Let_def)

text \<open>
  In the example nothing is mapped at \<open>0x2000\<close> (the table is there, the entry is
  not present) nor at \<open>0x00C00000\<close> (no directory entry).
\<close>

theorem mon_setperm_not_mapped_witness:
  "pgdir_walk example_state (kern_pgdir example_state) 0x2000 = 0xF0111008
   \<and> mem example_state 0xF0111008 AND PTE_P = 0
   \<and> mon_setperm example_state 0x2000 0x7 = (example_state, [No_mapping_at 0x2000])
   \<and> pgdir_walk example_state (kern_pgdir example_state) 0x00C00000 = 0
   \<and> mon_setperm example_state 0x00C00000 0x7 = (example_state, [No_mapping_at 0x00C00000])"
proof -
  have walk: "pgdir_walk example_state (kern_pgdir example_state) 0x2000 = 0xF0111008"
    by (simp add: example_state_def pgdir_walk_def PDX_def PTX_def PTE_P_def PTE_ADDR_def
        KERNBASE_def)
  have entry: "mem example_state 0xF0111008 AND PTE_P = 0"
    by (simp add: example_state_def)
  have walk': "pgdir_walk example_state (kern_pgdir example_state) 0x00C00000 = 0"
    by (simp add: example_state_def pgdir_walk_def PDX_def PTX_def PTE_P_def PTE_ADDR_def
        KERNBASE_def)
  have "\<not> (pgdir_walk example_state (kern_pgdir example_state) 0x2000 \<noteq> 0
      \<and> mem example_state (pgdir_walk example_state (kern_pgdir example_state) 0x2000)
          AND PTE_P \<noteq> 0)"
    by (simp add: walk entry)
  moreover have "\<not> (pgdir_walk example_state (kern_pgdir example_state) 0x00C00000 \<noteq> 0
      \<and> mem example_state (pgdir_walk example_state (kern_pgdir example_state) 0x00C00000)
          AND PTE_P \<noteq> 0)"
    by (simp add: walk')
  ultimately show ?thesis
    using mon_setperm_not_mapped [of example_state "0x2000" "0x7"]
      mon_setperm_not_mapped [of example_state "0x00C00000" "0x7"] walk entry walk'
    by simp
qed

section \<open>backtrace\<close>

text \<open>On a frame chain the loop returns, with the lines of each frame of the chain in turn.\<close>

lemma backtrace_loop_chain:
  "frame_chain s ebp bs \<Longrightarrow>
   backtrace_loop dbg s ebp acc = Some (acc @ concat (map (backtrace_frame dbg s) bs))"
proof (induction bs arbitrary: ebp acc)
  case Nil
  then show ?case by (simp add: backtrace_loop.simps)
next
  case (Cons b bs)
  then have "ebp = b" "b \<noteq> 0" "frame_chain s (mem s b) bs" by simp_all
  then show ?case
    using Cons.IH [of "mem s b" "acc @ backtrace_frame dbg s b"]
    by (subst backtrace_loop.simps) simp
qed

lemma frame_bases_append: "frame_bases (xs @ ys) = frame_bases xs @ frame_bases ys"
  by (induction xs rule: frame_bases.induct) simp_all

lemma frame_bases_frames:
  "frame_bases (concat (map (backtrace_frame dbg s) bs)) = bs"
  by (induction bs) (simp_all add: backtrace_frame_def Let_def)

text \<open>
  C6. On a frame chain (finitely many frame bases that are not zero, the last one holding
  a saved frame base of zero) \<open>mon_backtrace\<close> returns, and it reports one frame for each
  frame base of the chain, in their order, and nothing else but the heading; when the
  starting frame base is zero it reports no frame.
\<close>

theorem mon_backtrace_frames:
  assumes "frame_chain s ebp bs"
  shows "\<exists>out. mon_backtrace dbg s ebp = Some out \<and> frame_bases out = bs
           \<and> length out = 1 + 2 * length bs
           \<and> (ebp = 0 \<longrightarrow> out = [Stack_backtrace])"
proof -
  let ?out = "[Stack_backtrace] @ concat (map (backtrace_frame dbg s) bs)"
  have r: "mon_backtrace dbg s ebp = Some ?out"
    unfolding mon_backtrace_def by (rule backtrace_loop_chain [OF assms])
  have b: "frame_bases ?out = bs"
    by (simp add: frame_bases_frames)
  have l: "length (concat (map (backtrace_frame dbg s) bs)) = 2 * length bs"
    by (induction bs) (simp_all add: backtrace_frame_def Let_def)
  have z: "ebp = 0 \<longrightarrow> ?out = [Stack_backtrace]"
    using assms by (cases bs) auto
  from r b l z show ?thesis by simp
qed

text \<open>
  The two frames of the example, and the empty chain.
\<close>

theorem mon_backtrace_frames_witness:
  "frame_chain example_state 0xF010FF58 [0xF010FF58, 0xF010FF78]
   \<and> (\<exists>out. mon_backtrace example_debuginfo example_state 0xF010FF58 = Some out
         \<and> frame_bases out = [0xF010FF58, 0xF010FF78] \<and> length out = 5)
   \<and> frame_chain example_state 0 []
   \<and> mon_backtrace example_debuginfo example_state 0 = Some [Stack_backtrace]"
proof -
  have c: "frame_chain example_state 0xF010FF58 [0xF010FF58, 0xF010FF78]"
    by (simp add: example_state_def)
  have z: "frame_chain example_state 0 []"
    by simp
  from mon_backtrace_frames [OF c, of example_debuginfo]
    mon_backtrace_frames [OF z, of example_debuginfo] c z
  show ?thesis by auto
qed

text \<open>
  C8. For every frame of the chain with frame base \<open>b\<close>, \<open>mon_backtrace\<close> prints the
  return address read from the word above \<open>b\<close> (at \<open>b + 4\<close>), exactly the five
  argument words above the return address (at \<open>b + 8\<close>, ..., \<open>b + 24\<close>), and what the
  resolver gave for the return address, with the offset computed as the return address
  minus the start address of the resolved function.
\<close>

theorem mon_backtrace_frame_contents:
  assumes "frame_chain s ebp bs"
  shows "mon_backtrace dbg s ebp =
    Some (Stack_backtrace #
      concat (map (\<lambda>b.
        [Frame_line b (mem s (b + 4)) (map (\<lambda>i. mem s (b + 8 + 4 * of_nat i)) [0..<5]),
         Debug_line (eip_file (dbg (mem s (b + 4)))) (eip_line (dbg (mem s (b + 4))))
           (eip_fn_namelen (dbg (mem s (b + 4)))) (eip_fn_name (dbg (mem s (b + 4))))
           (mem s (b + 4) - eip_fn_addr (dbg (mem s (b + 4))))]) bs))"
proof -
  have five: "[0..<5] = [0, 1, 2, 3, 4]"
    by (simp add: upt_rec)
  have "backtrace_frame dbg s = (\<lambda>b.
        [Frame_line b (mem s (b + 4)) (map (\<lambda>i. mem s (b + 8 + 4 * of_nat i)) [0..<5]),
         Debug_line (eip_file (dbg (mem s (b + 4)))) (eip_line (dbg (mem s (b + 4))))
           (eip_fn_namelen (dbg (mem s (b + 4)))) (eip_fn_name (dbg (mem s (b + 4))))
           (mem s (b + 4) - eip_fn_addr (dbg (mem s (b + 4))))])"
    by (rule ext) (simp add: backtrace_frame_def Let_def five add.assoc)
  then show ?thesis
    using backtrace_loop_chain [OF assms, of dbg "[Stack_backtrace]"]
    by (simp add: mon_backtrace_def)
qed

text \<open>
  The report of the example: the offsets are \<open>0xF0100A62 - 0xF0100A00\<close> and
  \<open>0xF010003E - 0xF0100A00\<close> (which wraps around).
\<close>

theorem mon_backtrace_frame_contents_witness:
  "frame_chain example_state 0xF010FF58 [0xF010FF58, 0xF010FF78]
   \<and> mon_backtrace example_debuginfo example_state 0xF010FF58 =
       Some [Stack_backtrace,
             Frame_line 0xF010FF58 0xF0100A62 [1, 2, 3, 4, 5],
             Debug_line ''kern/monitor.c'' 143 7 ''monitor'' 0x62,
             Frame_line 0xF010FF78 0xF010003E [6, 7, 8, 9, 10],
             Debug_line ''kern/monitor.c'' 143 7 ''monitor'' 0xFFFFF63E]"
proof -
  have c: "frame_chain example_state 0xF010FF58 [0xF010FF58, 0xF010FF78]"
    by (simp add: example_state_def)
  have five: "[0..<5] = [0, 1, 2, 3, 4]"
    by (simp add: upt_rec)
  from mon_backtrace_frame_contents [OF c, of example_debuginfo] c
  show ?thesis
    by (simp add: five example_state_def example_debuginfo_def)
qed

section \<open>Physical-mode dump\<close>

lemma units_empty: "\<not> a < b \<Longrightarrow> units a b = []"
  by (simp add: units_def word_less_nat_alt)

lemma unat_plus4: "a < b \<Longrightarrow> unat b + 3 < 2 ^ 32 \<Longrightarrow> unat (a + 4) = unat a + 4"
  for a b :: u32
  by (simp add: word_less_nat_alt unat_word_ariths)

lemma units_count_step:
  fixes a b :: nat
  assumes "a < b"
  shows "(b - a + 3) div 4 = Suc ((b - (a + 4) + 3) div 4)"
proof (cases "a + 4 \<le> b")
  case True
  then have "b - a + 3 = (b - (a + 4) + 3) + 4" by simp
  then have "(b - a + 3) div 4 = ((b - (a + 4) + 3) + 4) div 4" by (rule arg_cong)
  then show ?thesis by (simp only: div_add_self2 Suc_eq_plus1)
next
  case False
  with assms have l: "4 * 1 \<le> b - a + 3" and u: "b - a + 3 < 4 * Suc 1"
    and z: "b - (a + 4) = 0"
    by simp_all
  have "(b - a + 3) div 4 = 1"
    using l u by (rule div_nat_eqI)
  then show ?thesis
    by (simp only: z)
qed

lemma units_step:
  assumes "a < b" "unat b + 3 < 2 ^ 32"
  shows "units a b = a # units (a + 4) b"
proof -
  have u: "unat (a + 4) = unat a + 4"
    using assms by (rule unat_plus4)
  have lt: "unat a < unat b"
    using assms(1) by (simp add: word_less_nat_alt)
  have k: "(unat b - unat a + 3) div 4 = Suc ((unat b - (unat a + 4) + 3) div 4)"
    using lt by (rule units_count_step)
  show ?thesis
    unfolding units_def u k
    by (simp add: upt_conv_Cons map_Suc_upt [symmetric] del: upt_Suc)
qed

lemma units_induct_measure:
  "a < b \<Longrightarrow> unat b + 3 < 2 ^ 32 \<Longrightarrow> unat b - unat (a + 4) < unat b - unat a"
  for a b :: u32
  by (simp add: unat_plus4 word_less_nat_alt)

lemma dump_physmem_loop_units:
  assumes "unat next_addr + 3 < 2 ^ 32"
    and "\<And>pa. pa < next_addr \<Longrightarrow> PGNUM pa < npages s"
  shows "dump_physmem_loop s start_pa next_addr acc =
    Some (Inr (acc @ map (\<lambda>pa. Phys_unit pa (mem s (pa + KERNBASE))) (units start_pa next_addr)))"
proof (induction "unat next_addr - unat start_pa" arbitrary: start_pa acc rule: less_induct)
  case less
  show ?case
  proof (cases "start_pa < next_addr")
    case False
    then show ?thesis
      by (subst dump_physmem_loop.simps) (simp add: units_empty)
  next
    case True
    have k: "KADDR s start_pa = Inr (start_pa + KERNBASE)"
      using assms(2) [OF True] by (simp add: KADDR_def)
    have m: "unat next_addr - unat (start_pa + 4) < unat next_addr - unat start_pa"
      using True assms(1) by (rule units_induct_measure)
    show ?thesis
      using less [OF m] True k
      by (subst dump_physmem_loop.simps) (simp add: units_step [OF True assms(1)])
  qed
qed

lemma MIN_ADDR_le1: "MIN_ADDR x y \<le> x" and MIN_ADDR_le2: "MIN_ADDR x y \<le> y"
  by (auto simp add: MIN_ADDR_def)

lemma installed_page:
  assumes "pa < e" "e \<le> npages s * PGSIZE"
  shows "PGNUM pa < npages s"
proof -
  have "unat pa < unat (npages s * PGSIZE)"
    using assms by (simp add: word_less_nat_alt word_le_nat_alt)
  also have "\<dots> \<le> unat (npages s) * 4096"
    by (simp add: unat_word_ariths PGSIZE_def)
  finally have "unat pa div 4096 < unat (npages s)"
    by (simp add: less_mult_imp_div_less)
  then show ?thesis
    by (simp add: PGNUM_def word_less_nat_alt unat_drop_bit_eq drop_bit_eq_div unat_div)
qed

text \<open>
  C3, as the code has it. \<open>dump_physmem\<close> does not clamp a request to installed memory.
  When the requested end \<open>start_pa + n\<close> exceeds installed memory
  (\<open>npages * PGSIZE\<close>), it prints the line "Range out of memory!" and no record at all.
  Otherwise it prints one record for each 4-byte unit from \<open>start_pa\<close> up to the smaller
  of the requested end and \<open>0x10000000\<close> (\<open>MAX_MEM - KERNBASE + 1\<close>, the size of the
  kernel's window on physical memory), and so none when \<open>start_pa\<close> is not below that
  bound; each record holds the word read through \<open>KADDR\<close>. In both cases the function
  returns, and \<open>KADDR\<close> never panics.
\<close>

theorem dump_physmem_checked:
  "dump_physmem s start_pa n =
     (if npages s * PGSIZE < start_pa + n then Some (Inr [Range_out_of_memory])
      else Some (Inr (map (\<lambda>pa. Phys_unit pa (mem s (pa + KERNBASE)))
                   (units start_pa (MIN_ADDR (start_pa + n) 0x10000000)))))"
proof (cases "npages s * PGSIZE < start_pa + n")
  case True
  then show ?thesis by (simp add: dump_physmem_def)
next
  case False
  let ?next = "MIN_ADDR (start_pa + n) 0x10000000"
  have c: "MAX_MEM - KERNBASE + 1 = 0x10000000"
    by (simp add: MAX_MEM_def KERNBASE_def)
  have "?next \<le> 0x10000000" by (rule MIN_ADDR_le2)
  then have b: "unat ?next + 3 < 2 ^ 32"
    by (simp add: word_le_nat_alt)
  have e: "?next \<le> npages s * PGSIZE"
    using False MIN_ADDR_le1 [of "start_pa + n" "0x10000000"] by simp
  have p: "\<And>pa. pa < ?next \<Longrightarrow> PGNUM pa < npages s"
    using e by (rule installed_page [rotated])
  show ?thesis
    using False dump_physmem_loop_units [OF b p, of start_pa "[]"]
    by (simp add: dump_physmem_def Let_def c)
qed

text \<open>
  The example state, with 128 MB installed: a request within memory, and one beyond it.
\<close>

lemma two: "[0..<2] = [0, 1]"
  by (simp add: upt_rec)

theorem dump_physmem_checked_witness:
  "dump_physmem example_state 0x1000 8 = Some (Inr [Phys_unit 0x1000 0, Phys_unit 0x1004 0])
   \<and> dump_physmem example_state 0x10000000 8 = Some (Inr [Range_out_of_memory])"
proof -
  have n: "npages example_state * PGSIZE = 0x08000000"
    by (simp add: example_state_def PGSIZE_def)
  have u: "units 0x1000 (MIN_ADDR 0x1008 0x10000000) = [0x1000, 0x1004]"
    by (simp add: MIN_ADDR_def units_def two)
  have m: "mem example_state 0xF0001000 = 0" "mem example_state 0xF0001004 = 0"
    by (simp_all add: example_state_def)
  show ?thesis
    using dump_physmem_checked [of example_state "0x1000" 8]
      dump_physmem_checked [of example_state "0x10000000" 8]
    by (simp add: n u m KERNBASE_def)
qed

text \<open>
  C3 as stated fails: with 128 MB installed (\<open>0x08000000\<close> bytes), the request for the
  four units from \<open>0x07FFFFF8\<close> starts below the end of memory and ends above it. The
  claim has the two units below the end of memory dumped; the code prints the refusal
  and nothing else.
\<close>

theorem dump_physmem_refuses:
  "npages example_state * PGSIZE = 0x08000000
   \<and> dump_physmem example_state 0x07FFFFF8 16 = Some (Inr [Range_out_of_memory])"
  by (simp add: dump_physmem_def example_state_def PGSIZE_def)

section \<open>Virtual-mode dump: the runs that make no progress\<close>

lemma dump_unmapped_loop_done:
  "\<not> start_va < next_addr \<Longrightarrow> dump_unmapped_loop start_va next_addr acc = Some (start_va, acc)"
  by (subst dump_unmapped_loop.simps) simp

lemma dump_mapped_loop_done:
  "\<not> start_va < next_addr \<Longrightarrow>
   dump_mapped_loop s pte start_va next_addr acc = Some (start_va, acc)"
  by (subst dump_mapped_loop.simps) simp

lemma MIN_ADDR_stuck: "b \<le> va \<Longrightarrow> \<not> va < MIN_ADDR e b"
  by (auto simp add: MIN_ADDR_def)

lemmas dump_virtmem_loop_induct = dump_virtmem_loop.raw_induct [rotated 1, consumes 1, case_names step]

text \<open>
  When the bound \<open>dump_virtmem\<close> computes for the run at \<open>va\<close> is not above \<open>va\<close>, the
  inner loop prints nothing and leaves \<open>start_va\<close> as it is, and the outer loop meets the
  same state again: the dump never returns.
\<close>

lemma dump_virtmem_loop_not_stuck:
  "dump_virtmem_loop s va e acc = Some y \<Longrightarrow>
   \<not> (va < e \<and>
    (if pgdir_walk s (kern_pgdir s) va = 0 then PGADDR (PDX va + 1) 0 0
     else PGADDR (PDX va) (PTX va + 1) 0) \<le> va)"
proof (induction s va e acc y rule: dump_virtmem_loop_induct)
  case (step loop s va e acc y)
  show ?case
  proof
    assume a: "va < e \<and>
      (if pgdir_walk s (kern_pgdir s) va = 0 then PGADDR (PDX va + 1) 0 0
       else PGADDR (PDX va) (PTX va + 1) 0) \<le> va"
    have "loop s va e acc = Some y"
    proof (cases "pgdir_walk s (kern_pgdir s) va = 0")
      case True
      with a have "\<not> va < MIN_ADDR e (PGADDR (PDX va + 1) 0 0)"
        by (simp add: MIN_ADDR_stuck)
      with step(2) a True show ?thesis
        by (simp add: dump_unmapped_loop_done)
    next
      case False
      with a have "\<not> va < MIN_ADDR e (PGADDR (PDX va) (PTX va + 1) 0)"
        by (simp add: MIN_ADDR_stuck)
      with step(2) a False show ?thesis
        by (simp add: dump_unmapped_loop_done dump_mapped_loop_done Let_def split: if_splits)
    qed
    with step(1) a show False by blast
  qed
qed

lemma dump_virtmem_loop_stuck:
  assumes "va < e"
    and "(if pgdir_walk s (kern_pgdir s) va = 0 then PGADDR (PDX va + 1) 0 0
          else PGADDR (PDX va) (PTX va + 1) 0) \<le> va"
  shows "dump_virtmem_loop s va e acc = None"
proof (cases "dump_virtmem_loop s va e acc")
  case None
  then show ?thesis .
next
  case (Some y)
  from dump_virtmem_loop_not_stuck [OF Some] assms show ?thesis by simp
qed

section \<open>Rounding down\<close>

lemma unat_ROUNDDOWN:
  "unat (ROUNDDOWN a n) = unat a - unat a mod unat n"
proof -
  have "a mod n \<le> a"
    by (simp add: word_le_nat_alt unat_mod)
  then show ?thesis
    by (simp add: ROUNDDOWN_def unat_sub unat_mod)
qed

lemma ROUNDDOWN_page: "4096 dvd unat (ROUNDDOWN a PGSIZE)"
  by (simp add: unat_ROUNDDOWN PGSIZE_def minus_mod_eq_mult_div)

lemma ROUNDDOWN_top_page:
  assumes "0xFFFFF000 \<le> a"
  shows "ROUNDDOWN a PGSIZE = 0xFFFFF000"
proof -
  have l: "4096 * 1048575 \<le> unat a"
    using assms by (simp add: word_le_nat_alt)
  have "unat a < 2 ^ 32"
    using unsigned_less [of a, where 'a = nat] by simp
  then have u: "unat a < 4096 * Suc 1048575" by simp
  have "unat a div 4096 = 1048575"
    using l u by (rule div_nat_eqI)
  then have "unat (ROUNDDOWN a PGSIZE) = 4096 * 1048575"
    by (simp add: unat_ROUNDDOWN PGSIZE_def minus_mod_eq_mult_div)
  then show ?thesis
    by (simp add: word_unat_eq_iff)
qed

lemma ROUNDDOWN_aligned:
  assumes "4 dvd unat a"
  shows "ROUNDDOWN a UNIT_LEN = a"
proof -
  have "unat a mod 4 = 0"
    using assms by simp
  then have "unat (ROUNDDOWN a UNIT_LEN) = unat a"
    by (simp add: unat_ROUNDDOWN UNIT_LEN_def)
  then show ?thesis
    by (simp add: word_unat_eq_iff)
qed

lemma ROUNDDOWN_unit: "4 dvd unat (ROUNDDOWN a UNIT_LEN)"
  by (simp add: unat_ROUNDDOWN UNIT_LEN_def minus_mod_eq_mult_div)

section \<open>Indices and run bounds as numbers\<close>

lemma mask10: "(0x3FF :: u32) = mask 10"
  by (simp add: mask_eq_exp_minus_1)

lemma unat_div22_less: "unat (va :: u32) div 2 ^ 22 < 2 ^ 10"
  using unsigned_less [of va, where 'a = nat] by (simp add: less_mult_imp_div_less)

lemma unat_PDX: "unat (PDX va) = unat va div 2 ^ 22"
  using unat_div22_less [of va]
  unfolding PDX_def mask10
  by (simp add: drop_bit_eq_div unat_div unat_mod take_bit_eq_mod flip: take_bit_eq_mask)

lemma unat_PTX: "unat (PTX va) = unat va div 2 ^ 12 mod 2 ^ 10"
  unfolding PTX_def mask10
  by (simp add: drop_bit_eq_div unat_div unat_mod take_bit_eq_mod flip: take_bit_eq_mask)

lemma unat_push_bit22:
  fixes d :: u32
  assumes "unat d < 2 ^ 10"
  shows "unat (push_bit 22 d) = unat d * 2 ^ 22"
proof -
  have "unat d * 2 ^ 22 < 2 ^ 32"
    using assms by simp
  then show ?thesis
    by (simp add: push_bit_eq_mult unat_word_ariths)
qed

lemma unat_push_bit12:
  fixes t :: u32
  assumes "unat t < 2 ^ 20"
  shows "unat (push_bit 12 t) = unat t * 2 ^ 12"
proof -
  have "unat t * 2 ^ 12 < 2 ^ 32"
    using assms by simp
  then show ?thesis
    by (simp add: push_bit_eq_mult unat_word_ariths)
qed

text \<open>
  Away from the addresses of \<open>index_carry\<close>, the bounds \<open>dump_virtmem\<close> computes are the
  next directory-entry boundary and the next page boundary.
\<close>

lemma PGADDR_dir:
  assumes "PDX va \<noteq> 0x3FF"
  shows "unat (PGADDR (PDX va + 1) 0 0) = (unat va div 2 ^ 22 + 1) * 2 ^ 22"
proof -
  have "unat (PDX va) \<noteq> 1023"
    using assms by (simp add: word_unat_eq_iff)
  with unat_div22_less [of va] have d: "unat va div 2 ^ 22 + 1 < 2 ^ 10"
    by (simp add: unat_PDX)
  then have u: "unat (PDX va + 1) = unat va div 2 ^ 22 + 1"
    by (simp add: unat_word_ariths unat_PDX)
  show ?thesis
    using d by (simp add: PGADDR_def unat_push_bit22 u)
qed

lemma push_bits_disjoint:
  fixes d t :: u32
  assumes "unat t < 2 ^ 10"
  shows "push_bit 22 d OR push_bit 12 t = push_bit 22 d + push_bit 12 t"
proof -
  have "t < 2 ^ 10"
    using assms by (simp add: word_less_nat_alt)
  then have t: "t = take_bit 10 t"
    by (simp add: take_bit_eq_mask less_mask_eq)
  have "push_bit 22 d AND push_bit 12 (take_bit 10 t) = 0"
    by (rule bit_eqI) (auto simp add: bit_simps)
  then have "push_bit 22 d AND push_bit 12 t = 0"
    using t by simp
  then show ?thesis
    by (simp add: disjunctive_add_eq_or)
qed

lemma index_split:
  fixes q a b k :: nat
  shows "q div a * (a * b) + (q mod a + k) * b = (q + k) * b"
proof -
  have e: "q div a * a + q mod a = q"
    by (rule div_mult_mod_eq)
  have "q div a * (a * b) + (q mod a + k) * b = (q div a * a + q mod a + k) * b"
    by (simp only: distrib_right mult.assoc add.assoc)
  then show ?thesis
    unfolding e .
qed

lemma page_index_split:
  fixes v :: nat
  shows "v div 2 ^ 22 * 2 ^ 22 + (v div 2 ^ 12 mod 2 ^ 10 + k) * 2 ^ 12 = (v div 2 ^ 12 + k) * 2 ^ 12"
proof -
  have d: "v div 2 ^ 22 = v div 2 ^ 12 div 2 ^ 10"
    by (simp add: div_mult2_eq [symmetric])
  have p: "(2::nat) ^ 10 * 2 ^ 12 = 2 ^ 22"
    by simp
  have "v div 2 ^ 12 div 2 ^ 10 * (2 ^ 10 * 2 ^ 12) + (v div 2 ^ 12 mod 2 ^ 10 + k) * 2 ^ 12
      = (v div 2 ^ 12 + k) * 2 ^ 12"
    by (rule index_split)
  then show ?thesis
    unfolding d p .
qed

lemma PGADDR_page:
  assumes "\<not> (PTX va = 0x3FF \<and> odd (PDX va))"
  shows "unat (PGADDR (PDX va) (PTX va + 1) 0) = (unat va div 2 ^ 12 + 1) * 2 ^ 12"
proof (cases "PTX va = 0x3FF")
  case False
  then have "unat (PTX va) \<noteq> 1023"
    by (simp add: word_unat_eq_iff)
  moreover have "unat (PTX va) < 2 ^ 10"
    by (simp add: unat_PTX)
  ultimately have t: "unat (PTX va) + 1 < 2 ^ 10"
    by simp
  then have u: "unat (PTX va + 1) = unat (PTX va) + 1"
    by (simp add: unat_word_ariths)
  have d: "unat (PDX va) < 2 ^ 10"
    using unat_div22_less [of va] by (simp add: unat_PDX)
  have "PGADDR (PDX va) (PTX va + 1) 0 = push_bit 22 (PDX va) + push_bit 12 (PTX va + 1)"
    using t u by (simp add: PGADDR_def push_bits_disjoint)
  also have "unat \<dots> = unat (PDX va) * 2 ^ 22 + (unat (PTX va) + 1) * 2 ^ 12"
  proof -
    have a: "unat (push_bit 22 (PDX va)) = unat (PDX va) * 2 ^ 22"
      using d by (rule unat_push_bit22)
    have b: "unat (push_bit 12 (PTX va + 1)) = (unat (PTX va) + 1) * 2 ^ 12"
      using t u unat_push_bit12 [of "PTX va + 1"] by simp
    have "unat (PDX va) * 2 ^ 22 \<le> 1023 * 2 ^ 22" "(unat (PTX va) + 1) * 2 ^ 12 \<le> 1023 * 2 ^ 12"
      using d t by simp_all
    then have "unat (PDX va) * 2 ^ 22 + (unat (PTX va) + 1) * 2 ^ 12 < 2 ^ 32"
      by simp
    then show ?thesis
      using a b unat_add_lem [of "push_bit 22 (PDX va)" "push_bit 12 (PTX va + 1)"] by simp
  qed
  also have "\<dots> = (unat va div 2 ^ 12 + 1) * 2 ^ 12"
    unfolding unat_PDX unat_PTX by (rule page_index_split)
  finally show ?thesis .
next
  case True
  with assms have e: "even (PDX va)" by simp
  have "unat (PDX va) \<noteq> 1023"
  proof
    assume "unat (PDX va) = 1023"
    then have "PDX va = 0x3FF" by (simp add: word_unat_eq_iff)
    with e show False by simp
  qed
  with unat_div22_less [of va] have d: "unat (PDX va) + 1 < 2 ^ 10"
    by (simp add: unat_PDX)
  then have u: "unat (PDX va + 1) = unat (PDX va) + 1"
    by (simp add: unat_word_ariths)
  have "PGADDR (PDX va) (PTX va + 1) 0 = push_bit 22 (PDX va) OR push_bit 22 1"
    by (simp add: PGADDR_def True)
  also have "\<dots> = push_bit 22 (PDX va OR 1)"
    by (simp only: push_bit_or)
  also have "PDX va OR 1 = PDX va + 1"
    using e by (simp add: or_one_eq)
  finally have "unat (PGADDR (PDX va) (PTX va + 1) 0) = (unat (PDX va) + 1) * 2 ^ 22"
    using d u unat_push_bit22 [of "PDX va + 1"] by simp
  moreover have "unat (PTX va) = 1023"
    using True by simp
  ultimately show ?thesis
    using page_index_split [of "unat va" 1] by (simp add: unat_PDX unat_PTX)
qed

section \<open>Virtual-mode dump: where the run bound is wrong\<close>

text \<open>
  At the addresses of \<open>index_carry\<close> the bound is not above the address: the dump of
  a range that reaches such an address at the start of a run never returns.
\<close>

lemma PGADDR_carry_dir: "PDX va = 0x3FF \<Longrightarrow> PGADDR (PDX va + 1) 0 0 = 0"
  by (simp add: PGADDR_def)

lemma PGADDR_carry_page:
  assumes "PTX va = 0x3FF" "odd (PDX va)"
  shows "PGADDR (PDX va) (PTX va + 1) 0 \<le> va"
proof -
  have d: "unat (PDX va) < 2 ^ 10"
    using unat_div22_less [of va] by (simp add: unat_PDX)
  have "PGADDR (PDX va) (PTX va + 1) 0 = push_bit 22 (PDX va) OR push_bit 22 1"
    by (simp add: PGADDR_def assms(1))
  also have "\<dots> = push_bit 22 (PDX va OR 1)"
    by (simp only: push_bit_or)
  also have "PDX va OR 1 = PDX va"
    using assms(2) by (simp add: or_one_eq)
  finally have "unat (PGADDR (PDX va) (PTX va + 1) 0) = unat va div 2 ^ 22 * 2 ^ 22"
    using d by (simp add: unat_push_bit22 unat_PDX)
  then show ?thesis
    by (simp add: word_le_nat_alt)
qed

lemma dump_virtmem_loop_index_carry:
  assumes "va < e" "index_carry s va"
  shows "dump_virtmem_loop s va e acc = None"
proof (rule dump_virtmem_loop_stuck [OF assms(1)])
  show "(if pgdir_walk s (kern_pgdir s) va = 0 then PGADDR (PDX va + 1) 0 0
         else PGADDR (PDX va) (PTX va + 1) 0) \<le> va"
  proof (cases "pgdir_walk s (kern_pgdir s) va = 0")
    case True
    with assms(2) have "PDX va = 0x3FF"
      by (simp add: index_carry_def)
    then have "PGADDR (PDX va + 1) 0 0 = 0"
      by (rule PGADDR_carry_dir)
    with True show ?thesis by simp
  next
    case False
    with assms(2) have "PTX va = 0x3FF" "odd (PDX va)"
      by (simp_all add: index_carry_def)
    then have "PGADDR (PDX va) (PTX va + 1) 0 \<le> va"
      by (rule PGADDR_carry_page)
    with False show ?thesis by simp
  qed
qed

lemma example_walk_top_dir:
  "pgdir_walk example_state (kern_pgdir example_state) 0xFFC00000 = 0"
  by (simp add: example_state_def pgdir_walk_def PDX_def PTX_def PTE_P_def PTE_ADDR_def
      KERNBASE_def)

lemma example_walk_last_page:
  "pgdir_walk example_state (kern_pgdir example_state) 0x007FF000 = 0xF0112FFC"
  by (simp add: example_state_def pgdir_walk_def PDX_def PTX_def PTE_P_def PTE_ADDR_def
      KERNBASE_def)

lemma example_walk_stack_top:
  "pgdir_walk example_state (kern_pgdir example_state) 0xEFFFF000 = 0xF0113FFC"
  by (simp add: example_state_def pgdir_walk_def PDX_def PTX_def PTE_P_def PTE_ADDR_def
      KERNBASE_def)

lemma example_walk_stack_below:
  "pgdir_walk example_state (kern_pgdir example_state) 0xEFFFEFF8 = 0xF0113FF8"
  by (simp add: example_state_def pgdir_walk_def PDX_def PTX_def PTE_P_def PTE_ADDR_def
      KERNBASE_def)

text \<open>
  C1 at two failing inputs. In the example state, \<open>dumpmem v 0xefffeff8 4\<close> asks for
  the four units from \<open>0xEFFFEFF8\<close> to \<open>0xEFFFF008\<close>, across the boundary between the
  page at \<open>0xEFFFE000\<close> (not present) and the page at \<open>0xEFFFF000\<close> (mapped). The
  claim has four records. The code prints the two of the first page; for the second
  page the bound \<open>PGADDR(PDX(va), PTX(va) + 1, 0)\<close> is \<open>0xEFC00000\<close>, so the inner loop
  does not run and the command never returns. No 32-bit number overflows here. In every
  state, \<open>dumpmem v 0xfffff000 1\<close> never returns either: on the last page of the address
  space the bound is 0 without a directory entry and \<open>0xFFC00000\<close> with one.
\<close>

theorem dump_virtmem_never_returns:
  "mon_dumpmemory example_state False 0xEFFFEFF8 4 = None
   \<and> mon_dumpmemory s False 0xFFFFF000 1 = None"
proof -
  have r: "ROUNDDOWN 0xEFFFEFF8 UNIT_LEN = 0xEFFFEFF8" "ROUNDDOWN 0xFFFFF000 UNIT_LEN = 0xFFFFF000"
    by (simp_all add: ROUNDDOWN_def UNIT_LEN_def)
  have e: "mem example_state 0xF0113FF8 AND PTE_P = 0"
    by (simp add: example_state_def)
  have b: "MIN_ADDR 0xEFFFF008 (PGADDR (PDX 0xEFFFEFF8) (PTX 0xEFFFEFF8 + 1) 0) = 0xEFFFF000"
    by (simp add: MIN_ADDR_def PGADDR_def PDX_def PTX_def)
  have run: "dump_unmapped_loop 0xEFFFEFF8 0xEFFFF000 [] =
      Some (0xEFFFF000, [Virt_unmapped 0xEFFFEFF8, Virt_unmapped 0xEFFFEFFC])"
    by (simp add: dump_unmapped_loop.simps UNIT_LEN_def)
  have c: "index_carry example_state 0xEFFFF000"
    by (simp add: index_carry_def example_walk_stack_top PDX_def PTX_def)
  have stuck: "dump_virtmem_loop example_state 0xEFFFF000 0xEFFFF008
      [Virt_unmapped 0xEFFFEFF8, Virt_unmapped 0xEFFFEFFC] = None"
    by (rule dump_virtmem_loop_index_carry [OF _ c]) simp
  have "dump_virtmem_loop example_state 0xEFFFEFF8 0xEFFFF008 [] = None"
    by (subst dump_virtmem_loop.simps) (simp add: example_walk_stack_below e b run stuck)
  then have x: "mon_dumpmemory example_state False 0xEFFFEFF8 4 = None"
    unfolding mon_dumpmemory_def r by (simp add: dump_virtmem_def UNIT_LEN_def)
  have t: "(if pgdir_walk s (kern_pgdir s) 0xFFFFF000 = 0 then PGADDR (PDX 0xFFFFF000 + 1) 0 0
          else PGADDR (PDX 0xFFFFF000) (PTX 0xFFFFF000 + 1) 0) \<le> 0xFFFFF000"
    by (simp add: PGADDR_def PDX_def PTX_def)
  have "dump_virtmem_loop s 0xFFFFF000 0xFFFFF004 [] = None"
    by (rule dump_virtmem_loop_stuck [OF _ t]) simp
  then have y: "mon_dumpmemory s False 0xFFFFF000 1 = None"
    unfolding mon_dumpmemory_def r by (simp add: dump_virtmem_def UNIT_LEN_def)
  from x y show ?thesis by simp
qed

text \<open>
  C2 at two failing inputs, in the example state. At \<open>0xFFC00000\<close> there is no directory
  entry: the claim has the unmapped record of the unit printed, but the bound
  \<open>PGADDR(PDX(va) + 1, 0, 0)\<close> is 0, no record is printed and \<open>dumpmem v 0xffc00000 1\<close>
  never returns. At \<open>0x007FF000\<close> (directory index 1, table index \<open>0x3FF\<close>) the
  directory entry is there and the table entry is not present: the bound
  \<open>PGADDR(PDX(va), PTX(va) + 1, 0)\<close> is \<open>0x400000\<close>, below the address, and
  \<open>dumpmem v 0x7ff000 1\<close> prints no record and never returns.
\<close>

theorem dump_virtmem_unmapped_stuck:
  "pgdir_walk example_state (kern_pgdir example_state) 0xFFC00000 = 0
   \<and> mon_dumpmemory example_state False 0xFFC00000 1 = None
   \<and> pgdir_walk example_state (kern_pgdir example_state) 0x007FF000 = 0xF0112FFC
   \<and> mem example_state 0xF0112FFC AND PTE_P = 0
   \<and> mon_dumpmemory example_state False 0x007FF000 1 = None"
proof -
  have r: "ROUNDDOWN 0xFFC00000 UNIT_LEN = 0xFFC00000" "ROUNDDOWN 0x007FF000 UNIT_LEN = 0x007FF000"
    by (simp_all add: ROUNDDOWN_def UNIT_LEN_def)
  have "dump_virtmem_loop example_state 0xFFC00000 0xFFC00004 [] = None"
    by (rule dump_virtmem_loop_stuck)
      (simp_all add: example_walk_top_dir PGADDR_def PDX_def PTX_def)
  then have a: "mon_dumpmemory example_state False 0xFFC00000 1 = None"
    unfolding mon_dumpmemory_def r by (simp add: dump_virtmem_def UNIT_LEN_def)
  have "dump_virtmem_loop example_state 0x007FF000 0x007FF004 [] = None"
    by (rule dump_virtmem_loop_stuck)
      (simp_all add: example_walk_last_page PGADDR_def PDX_def PTX_def)
  then have b: "mon_dumpmemory example_state False 0x007FF000 1 = None"
    unfolding mon_dumpmemory_def r by (simp add: dump_virtmem_def UNIT_LEN_def)
  have e: "mem example_state 0xF0112FFC AND PTE_P = 0"
    by (simp add: example_state_def)
  from a b e example_walk_top_dir example_walk_last_page show ?thesis by simp
qed

text \<open>
  C7 at a failing input, in the example state. The page at \<open>0xEFFFF000\<close> (directory index
  \<open>0x3BF\<close>, table index \<open>0x3FF\<close>) is mapped: the claim has the run of its records reach
  the end of the range, but the bound \<open>PGADDR(PDX(va), PTX(va) + 1, 0)\<close> is
  \<open>0xEFC00000\<close>, below the address, and \<open>dumpmem v 0xeffff000 1\<close> prints no record and
  never returns.
\<close>

theorem dump_virtmem_mapped_stuck:
  "pgdir_walk example_state (kern_pgdir example_state) 0xEFFFF000 = 0xF0113FFC
   \<and> mem example_state 0xF0113FFC = 0x0010F003
   \<and> mem example_state 0xF0113FFC AND PTE_P \<noteq> 0
   \<and> mon_dumpmemory example_state False 0xEFFFF000 1 = None"
proof -
  have r: "ROUNDDOWN 0xEFFFF000 UNIT_LEN = 0xEFFFF000"
    by (simp_all add: ROUNDDOWN_def UNIT_LEN_def)
  have "dump_virtmem_loop example_state 0xEFFFF000 0xEFFFF004 [] = None"
    by (rule dump_virtmem_loop_stuck)
      (simp_all add: example_walk_stack_top PGADDR_def PDX_def PTX_def)
  then have a: "mon_dumpmemory example_state False 0xEFFFF000 1 = None"
    unfolding mon_dumpmemory_def r by (simp add: dump_virtmem_def UNIT_LEN_def)
  have e: "mem example_state 0xF0113FFC = 0x0010F003"
    by (simp add: example_state_def)
  from a e example_walk_stack_top show ?thesis by (simp add: PTE_P_def)
qed

section \<open>Units, and the inner loops of the virtual-mode dump\<close>

lemma units_mem_first: "a < b \<Longrightarrow> unat b + 3 < 2 ^ 32 \<Longrightarrow> a \<in> set (units a b)"
  by (simp add: units_step)

lemma units_bounds:
  assumes "unat b + 3 < 2 ^ 32"
  shows "x \<in> set (units a b) \<Longrightarrow> a \<le> x \<and> x < b"
proof (induction "unat b - unat a" arbitrary: a rule: less_induct)
  case less
  show ?case
  proof (cases "a < b")
    case False
    with less.prems show ?thesis by (simp add: units_empty)
  next
    case True
    note step = units_step [OF True assms]
    show ?thesis
    proof (cases "x = a")
      case True
      with \<open>a < b\<close> show ?thesis by simp
    next
      case False
      with less.prems step have x: "x \<in> set (units (a + 4) b)" by simp
      have "unat b - unat (a + 4) < unat b - unat a"
        using True assms by (rule units_induct_measure)
      from less.hyps [OF this x] have "a + 4 \<le> x" "x < b" by simp_all
      moreover have "a \<le> a + 4"
        using unat_plus4 [OF True assms] by (simp add: word_le_nat_alt)
      ultimately show ?thesis by simp
    qed
  qed
qed

lemma aligned_next:
  fixes a m :: u32
  assumes "a < m" "4 dvd (unat m - unat a)" "unat m + 3 < 2 ^ 32"
  shows "a + 4 \<le> m" "4 dvd (unat m - unat (a + 4))"
proof -
  have lt: "unat a < unat m"
    using assms(1) by (simp add: word_less_nat_alt)
  have u: "unat (a + 4) = unat a + 4"
    using assms(1,3) by (rule unat_plus4)
  from assms(2) obtain k where k: "unat m - unat a = 4 * k" ..
  with lt have "k \<noteq> 0" by (cases k) simp_all
  with k have "4 \<le> unat m - unat a" by simp
  with lt show "a + 4 \<le> m"
    by (simp add: word_le_nat_alt u)
  have "unat m - unat (a + 4) = 4 * (k - 1)"
    using k u by simp
  then show "4 dvd (unat m - unat (a + 4))" by simp
qed

lemma units_append:
  assumes "unat b + 3 < 2 ^ 32" "m \<le> b"
  shows "a \<le> m \<Longrightarrow> 4 dvd (unat m - unat a) \<Longrightarrow> units a b = units a m @ units m b"
proof (induction "unat m - unat a" arbitrary: a rule: less_induct)
  case less
  have mb: "unat m + 3 < 2 ^ 32"
    using assms by (simp add: word_le_nat_alt)
  show ?case
  proof (cases "a < m")
    case False
    with less.prems have "a = m" by simp
    then show ?thesis by (simp add: units_empty)
  next
    case True
    with assms(2) have ab: "a < b" by simp
    have dec: "unat m - unat (a + 4) < unat m - unat a"
      using True mb by (rule units_induct_measure)
    note n = aligned_next [OF True less.prems(2) mb]
    from less.hyps [OF dec n] show ?thesis
      by (simp add: units_step [OF ab assms(1)] units_step [OF True mb])
  qed
qed

lemma units_end:
  assumes "unat b + 3 < 2 ^ 32"
  shows "a \<le> b \<Longrightarrow> 4 dvd (unat b - unat a) \<Longrightarrow> a + 4 * of_nat (length (units a b)) = b"
proof (induction "unat b - unat a" arbitrary: a rule: less_induct)
  case less
  show ?case
  proof (cases "a < b")
    case False
    with less.prems have "a = b" by simp
    then show ?thesis by (simp add: units_empty)
  next
    case True
    have dec: "unat b - unat (a + 4) < unat b - unat a"
      using True assms by (rule units_induct_measure)
    note n = aligned_next [OF True less.prems(2) assms]
    from less.hyps [OF dec n] show ?thesis
      by (simp add: units_step [OF True assms] algebra_simps)
  qed
qed

lemma units_single:
  fixes a :: u32
  assumes "unat a + 4 < 2 ^ 32"
  shows "units a (a + 4) = [a]"
proof -
  have "unat (a + 4) = unat a + 4"
    using assms by (simp add: unat_word_ariths)
  then show ?thesis
    by (simp add: units_def)
qed

lemma dump_unmapped_loop_units:
  assumes "unat next_addr + 3 < 2 ^ 32"
  shows "dump_unmapped_loop start_va next_addr acc =
    Some (start_va + 4 * of_nat (length (units start_va next_addr)),
          acc @ map Virt_unmapped (units start_va next_addr))"
proof (induction "unat next_addr - unat start_va" arbitrary: start_va acc rule: less_induct)
  case less
  show ?case
  proof (cases "start_va < next_addr")
    case False
    then show ?thesis
      by (subst dump_unmapped_loop.simps) (simp add: units_empty)
  next
    case True
    have m: "unat next_addr - unat (start_va + 4) < unat next_addr - unat start_va"
      using True assms by (rule units_induct_measure)
    show ?thesis
      using less [OF m] True
      by (subst dump_unmapped_loop.simps)
        (simp add: units_step [OF True assms] UNIT_LEN_def algebra_simps)
  qed
qed

lemma dump_mapped_loop_units:
  assumes "unat next_addr + 3 < 2 ^ 32"
  shows "dump_mapped_loop s pte start_va next_addr acc =
    Some (start_va + 4 * of_nat (length (units start_va next_addr)),
          acc @ map (\<lambda>va. Virt_mapped va (PTE_ADDR (mem s pte) OR PGOFF va) (mem s va))
                  (units start_va next_addr))"
proof (induction "unat next_addr - unat start_va" arbitrary: start_va acc rule: less_induct)
  case less
  show ?case
  proof (cases "start_va < next_addr")
    case False
    then show ?thesis
      by (subst dump_mapped_loop.simps) (simp add: units_empty)
  next
    case True
    have m: "unat next_addr - unat (start_va + 4) < unat next_addr - unat start_va"
      using True assms by (rule units_induct_measure)
    show ?thesis
      using less [OF m] True
      by (subst dump_mapped_loop.simps)
        (simp add: units_step [OF True assms] UNIT_LEN_def algebra_simps)
  qed
qed

section \<open>Virtual-mode dump: the runs that make progress\<close>

lemma same_dir:
  fixes va x :: u32
  assumes "va \<le> x" "unat x < (unat va div 2 ^ 22 + 1) * 2 ^ 22"
  shows "PDX x = PDX va"
proof -
  have "2 ^ 22 * (unat va div 2 ^ 22) \<le> unat va"
    by simp
  also have "\<dots> \<le> unat x"
    using assms(1) by (simp add: word_le_nat_alt)
  finally have l: "2 ^ 22 * (unat va div 2 ^ 22) \<le> unat x" .
  have u: "unat x < 2 ^ 22 * Suc (unat va div 2 ^ 22)"
    using assms(2) by (simp add: mult.commute)
  have "unat x div 2 ^ 22 = unat va div 2 ^ 22"
    using l u by (rule div_nat_eqI)
  then show ?thesis
    by (simp add: word_unat_eq_iff unat_PDX)
qed

lemma same_page:
  fixes va x :: u32
  assumes "va \<le> x" "unat x < (unat va div 2 ^ 12 + 1) * 2 ^ 12"
  shows "PDX x = PDX va" "PTX x = PTX va"
proof -
  have "2 ^ 12 * (unat va div 2 ^ 12) \<le> unat va"
    by simp
  also have "\<dots> \<le> unat x"
    using assms(1) by (simp add: word_le_nat_alt)
  finally have l: "2 ^ 12 * (unat va div 2 ^ 12) \<le> unat x" .
  have u: "unat x < 2 ^ 12 * Suc (unat va div 2 ^ 12)"
    using assms(2) by (simp add: mult.commute)
  have e: "unat x div 2 ^ 12 = unat va div 2 ^ 12"
    using l u by (rule div_nat_eqI)
  then show "PTX x = PTX va"
    by (simp add: word_unat_eq_iff unat_PTX)
  have "unat x div 2 ^ 12 div 2 ^ 10 = unat va div 2 ^ 12 div 2 ^ 10"
    using e by simp
  then have "unat x div 2 ^ 22 = unat va div 2 ^ 22"
    by (simp add: div_mult2_eq [symmetric])
  then show "PDX x = PDX va"
    by (simp add: word_unat_eq_iff unat_PDX)
qed

lemma pgdir_walk_same_page:
  "PDX x = PDX va \<Longrightarrow> PTX x = PTX va \<Longrightarrow> pgdir_walk s pgdir x = pgdir_walk s pgdir va"
  by (simp add: pgdir_walk_def Let_def)

lemma pgdir_walk_absent_dir:
  "mem s (pgdir + 4 * PDX va) AND PTE_P = 0 \<Longrightarrow> PDX x = PDX va \<Longrightarrow> pgdir_walk s pgdir x = 0"
  by (simp add: pgdir_walk_def)


lemma aligned_bound:
  fixes va e :: u32
  assumes "4 dvd unat e"
  shows "unat e + 3 < 2 ^ 32"
proof -
  from assms obtain k where k: "unat e = 4 * k" ..
  have "unat e < 2 ^ 32"
    using unsigned_less [of e, where 'a = nat] by simp
  with k have "k < 2 ^ 30" by simp
  then have "4 * k + 3 < 2 ^ 32" by simp
  with k show ?thesis by simp
qed

text \<open>One run: the bound is above \<open>va\<close>, aligned, and not beyond the end.\<close>

lemma run_bound:
  fixes va e b :: u32
  assumes "va < e" "4 dvd unat va" "4 dvd unat e" "unat va < unat b" "4 dvd unat b"
  shows "va < MIN_ADDR e b" "MIN_ADDR e b \<le> e" "MIN_ADDR e b \<le> b"
    "4 dvd (unat (MIN_ADDR e b) - unat va)" "4 dvd unat (MIN_ADDR e b)"
    "unat (MIN_ADDR e b) + 3 < 2 ^ 32"
proof -
  show 1: "va < MIN_ADDR e b"
    using assms(1,4) by (simp add: MIN_ADDR_def word_less_nat_alt)
  show "MIN_ADDR e b \<le> e" by (rule MIN_ADDR_le1)
  show "MIN_ADDR e b \<le> b" by (rule MIN_ADDR_le2)
  show 2: "4 dvd unat (MIN_ADDR e b)"
    using assms(3,5) by (simp add: MIN_ADDR_def)
  then show "4 dvd (unat (MIN_ADDR e b) - unat va)"
    using assms(2) by (rule dvd_diff_nat)
  from 2 show "unat (MIN_ADDR e b) + 3 < 2 ^ 32"
    by (rule aligned_bound)
qed

text \<open>
  The loop of \<open>dump_virtmem\<close> on a 4-byte-aligned range none of whose units is an address
  of \<open>index_carry\<close>: it returns, and it prints for each unit of the range, in order and
  once, the record the walk of that unit decides. The runs of the loop (to the next
  directory-entry boundary without a directory entry, to the next page boundary
  otherwise) print what a walk at every unit would.
\<close>

lemma dump_virtmem_loop_units:
  assumes e4: "4 dvd unat e"
  shows "4 dvd unat va \<Longrightarrow>
    (\<And>x. x \<in> set (units va e) \<Longrightarrow> \<not> index_carry s x \<and> null_is_absent s x) \<Longrightarrow>
    dump_virtmem_loop s va e acc = Some (acc @ map (virt_record s) (units va e))"
proof (induction "unat e - unat va" arbitrary: va acc rule: less_induct)
  case less
  note e3 = aligned_bound [OF e4]
  show ?case
  proof (cases "va < e")
    case False
    then show ?thesis
      by (subst dump_virtmem_loop.simps) (simp add: units_empty)
  next
    case True
    let ?pte = "pgdir_walk s (kern_pgdir s) va"
    let ?b = "if ?pte = 0 then PGADDR (PDX va + 1) 0 0 else PGADDR (PDX va) (PTX va + 1) 0"
    let ?next = "MIN_ADDR e ?b"
    have here: "\<not> index_carry s va" "null_is_absent s va"
      using less.prems(2) [OF units_mem_first [OF True e3]] by simp_all
    have b: "unat ?b = (if ?pte = 0 then (unat va div 2 ^ 22 + 1) * 2 ^ 22
                        else (unat va div 2 ^ 12 + 1) * 2 ^ 12)"
      using here(1) by (simp add: index_carry_def PGADDR_dir PGADDR_page split: if_splits)
    have "unat va < (unat va div 2 ^ 22 + 1) * 2 ^ 22" "unat va < (unat va div 2 ^ 12 + 1) * 2 ^ 12"
      using dividend_less_div_times [of "2 ^ 22" "unat va"]
        dividend_less_div_times [of "2 ^ 12" "unat va"] by (simp_all add: algebra_simps)
    then have above: "unat va < unat ?b"
      unfolding b by simp
    have "4 dvd (unat va div 2 ^ 22 + 1) * (2 ^ 22 :: nat)" "4 dvd (unat va div 2 ^ 12 + 1) * (2 ^ 12 :: nat)"
      by (simp_all add: dvd_mult)
    then have b4: "4 dvd unat ?b"
      unfolding b by simp
    note rb = run_bound [OF True less.prems(1) e4 above b4]
    have split: "units va e = units va ?next @ units ?next e"
      using e3 rb(2) less_imp_le [OF rb(1)] rb(4) by (rule units_append)
    have stop: "va + 4 * of_nat (length (units va ?next)) = ?next"
      using rb(6) less_imp_le [OF rb(1)] rb(4) by (rule units_end)
    have dec: "unat e - unat ?next < unat e - unat va"
      using rb(1) True by (simp add: word_less_nat_alt)
    have rest: "dump_virtmem_loop s ?next e acc' = Some (acc' @ map (virt_record s) (units ?next e))"
      for acc'
      using less.hyps [OF dec rb(5)] less.prems(2) split by simp
    have inrun: "va \<le> x \<and> unat x < unat ?b" if "x \<in> set (units va ?next)" for x
    proof -
      from units_bounds [OF rb(6) that] have "va \<le> x" "x < ?next" by simp_all
      with rb(3) show ?thesis
        by (simp add: word_less_nat_alt word_le_nat_alt)
    qed
    show ?thesis
    proof (cases "?pte = 0")
      case True
      with here(2) have pde: "mem s (kern_pgdir s + 4 * PDX va) AND PTE_P = 0"
        by (simp add: null_is_absent_def)
      have "virt_record s x = Virt_unmapped x" if "x \<in> set (units va ?next)" for x
      proof -
        from inrun [OF that] True b have "PDX x = PDX va"
          by (simp add: same_dir)
        with pde have "pgdir_walk s (kern_pgdir s) x = 0"
          by (simp add: pgdir_walk_absent_dir)
        then show ?thesis by (simp add: virt_record_def)
      qed
      then have run: "map Virt_unmapped (units va ?next) = map (virt_record s) (units va ?next)"
        by simp
      have n: "?next = MIN_ADDR e (PGADDR (PDX va + 1) 0 0)"
        using True by simp
      have "dump_unmapped_loop va ?next acc = Some (?next, acc @ map Virt_unmapped (units va ?next))"
        using dump_unmapped_loop_units [OF rb(6), of va acc] stop by simp
      then have "dump_virtmem_loop s va e acc =
          dump_virtmem_loop s ?next e (acc @ map Virt_unmapped (units va ?next))"
        unfolding n using \<open>va < e\<close> True
        by (subst dump_virtmem_loop.simps) simp
      then show ?thesis
        by (simp add: rest run split)
    next
      case False
      have n: "?next = MIN_ADDR e (PGADDR (PDX va) (PTX va + 1) 0)"
        using False by simp
      have same: "pgdir_walk s (kern_pgdir s) x = ?pte" if "x \<in> set (units va ?next)" for x
      proof -
        from inrun [OF that] False b have "PDX x = PDX va" "PTX x = PTX va"
          by (simp_all add: same_page)
        then show ?thesis by (rule pgdir_walk_same_page)
      qed
      show ?thesis
      proof (cases "mem s ?pte AND PTE_P = 0")
        case True
        have "virt_record s x = Virt_unmapped x" if "x \<in> set (units va ?next)" for x
          using same [OF that] True by (simp add: virt_record_def)
        then have run: "map Virt_unmapped (units va ?next) = map (virt_record s) (units va ?next)"
          by simp
        have "dump_unmapped_loop va ?next acc =
            Some (?next, acc @ map Virt_unmapped (units va ?next))"
          using dump_unmapped_loop_units [OF rb(6), of va acc] stop by simp
        then have "dump_virtmem_loop s va e acc =
            dump_virtmem_loop s ?next e (acc @ map Virt_unmapped (units va ?next))"
          unfolding n using \<open>va < e\<close> False True
          by (subst dump_virtmem_loop.simps) simp
        then show ?thesis
          by (simp add: rest run split)
      next
        case present: False
        have "virt_record s x = Virt_mapped x (PTE_ADDR (mem s ?pte) OR PGOFF x) (mem s x)"
          if "x \<in> set (units va ?next)" for x
          using same [OF that] False present by (simp add: virt_record_def)
        then have run: "map (\<lambda>x. Virt_mapped x (PTE_ADDR (mem s ?pte) OR PGOFF x) (mem s x))
            (units va ?next) = map (virt_record s) (units va ?next)"
          by simp
        have "dump_mapped_loop s ?pte va ?next acc =
            Some (?next, acc @ map (\<lambda>x. Virt_mapped x (PTE_ADDR (mem s ?pte) OR PGOFF x) (mem s x))
                                 (units va ?next))"
          using dump_mapped_loop_units [OF rb(6), of s ?pte va acc] stop by simp
        then have "dump_virtmem_loop s va e acc =
            dump_virtmem_loop s ?next e
              (acc @ map (\<lambda>x. Virt_mapped x (PTE_ADDR (mem s ?pte) OR PGOFF x) (mem s x))
                       (units va ?next))"
          unfolding n using \<open>va < e\<close> False present
          by (subst dump_virtmem_loop.simps) simp
        then show ?thesis
          by (simp add: rest run split)
      qed
    qed
  qed
qed

section \<open>Virtual-mode dump: the command\<close>

text \<open>
  The command on a range that does not wrap around and has no unit at an address of
  \<open>index_carry\<close>: it prints exactly one record for each unit from the aligned start to
  the end, in steps of 4, each the record of its own unit: the coverage, the unmapped runs
  and the mapped runs of the virtual-mode dump, on the ranges where the run bounds are
  right.
\<close>

lemma mon_dumpmemory_virt_units:
  assumes nw: "unat (ROUNDDOWN start_addr UNIT_LEN) + 4 * unat n < 2 ^ 32"
    and ok: "\<And>x. x \<in> set (units (ROUNDDOWN start_addr UNIT_LEN)
                          (ROUNDDOWN start_addr UNIT_LEN + n * UNIT_LEN)) \<Longrightarrow>
              \<not> index_carry s x \<and> null_is_absent s x"
  shows "mon_dumpmemory s False start_addr n =
    Some (Inr (map (virt_record s)
      (units (ROUNDDOWN start_addr UNIT_LEN) (ROUNDDOWN start_addr UNIT_LEN + n * UNIT_LEN))))"
proof -
  let ?a = "ROUNDDOWN start_addr UNIT_LEN"
  have a4: "4 dvd unat ?a"
    by (rule ROUNDDOWN_unit)
  have "unat (n * UNIT_LEN) = unat n * 4"
    using nw by (simp add: UNIT_LEN_def unat_word_ariths)
  then have "unat (?a + n * UNIT_LEN) = unat ?a + unat n * 4"
    using nw by (simp add: unat_word_ariths)
  with a4 have e4: "4 dvd unat (?a + n * UNIT_LEN)"
    by simp
  from dump_virtmem_loop_units [OF e4 a4 ok, of "[]"] show ?thesis
    by (simp add: mon_dumpmemory_def dump_virtmem_def Let_def)
qed

text \<open>
  The example state from \<open>0xFF8\<close> to \<open>0x1008\<close>: two units without a mapping, then the
  first two units of the page mapped to \<open>0x5000\<close>.
\<close>

lemma four: "[0..<4] = [0, 1, 2, 3]"
  by (simp add: upt_rec)

lemma example_units: "units 0xFF8 0x1008 = [0xFF8, 0xFFC, 0x1000, 0x1004]"
  by (simp add: units_def four)

lemma example_walk_0:
  "pgdir_walk example_state (kern_pgdir example_state) 0xFF8 = 0xF0111000"
  "pgdir_walk example_state (kern_pgdir example_state) 0xFFC = 0xF0111000"
  by (simp_all add: example_state_def pgdir_walk_def PDX_def PTX_def PTE_P_def PTE_ADDR_def
      KERNBASE_def)

lemma example_walk_1:
  "pgdir_walk example_state (kern_pgdir example_state) 0x1000 = 0xF0111004"
  "pgdir_walk example_state (kern_pgdir example_state) 0x1004 = 0xF0111004"
  by (simp_all add: example_state_def pgdir_walk_def PDX_def PTX_def PTE_P_def PTE_ADDR_def
      KERNBASE_def)

lemma mon_dumpmemory_virt_example:
  "mon_dumpmemory example_state False 0xFFA 4 =
     Some (Inr [Virt_unmapped 0xFF8, Virt_unmapped 0xFFC,
                Virt_mapped 0x1000 0x5000 0x464C457F, Virt_mapped 0x1004 0x5004 0x00010101])"
proof -
  have r: "ROUNDDOWN 0xFFA UNIT_LEN = 0xFF8"
    by (simp add: ROUNDDOWN_def UNIT_LEN_def)
  have e: "(0xFF8 :: u32) + 4 * UNIT_LEN = 0x1008"
    by (simp add: UNIT_LEN_def)
  have m: "mem example_state 0xF0111000 = 0" "mem example_state 0xF0111004 = 0x5007"
    "mem example_state 0x1000 = 0x464C457F" "mem example_state 0x1004 = 0x00010101"
    by (simp_all add: example_state_def)
  have "mon_dumpmemory example_state False 0xFFA 4 =
    Some (Inr (map (virt_record example_state)
      (units (ROUNDDOWN 0xFFA UNIT_LEN) (ROUNDDOWN 0xFFA UNIT_LEN + 4 * UNIT_LEN))))"
  proof (rule mon_dumpmemory_virt_units)
    show "unat (ROUNDDOWN 0xFFA UNIT_LEN) + 4 * unat (4 :: u32) < 2 ^ 32"
      by (simp add: r)
  next
    fix x
    assume "x \<in> set (units (ROUNDDOWN 0xFFA UNIT_LEN) (ROUNDDOWN 0xFFA UNIT_LEN + 4 * UNIT_LEN))"
    then have "x = 0xFF8 \<or> x = 0xFFC \<or> x = 0x1000 \<or> x = 0x1004"
      by (simp add: r e example_units)
    then show "\<not> index_carry example_state x \<and> null_is_absent example_state x"
      by (auto simp add: index_carry_def null_is_absent_def example_walk_0 example_walk_1 PTX_def)
  qed
  then show ?thesis
    by (simp add: r e example_units virt_record_def example_walk_0 example_walk_1 m
        PTE_P_def PTE_ADDR_def PGOFF_def)
qed

text \<open>
  The scenario of the spec, which the example state holds: a page at \<open>0x1000\<close> mapped
  to \<open>0x5000\<close>, nothing mapped from \<open>0x2000\<close>. The dump of the range from \<open>0x0FFC\<close> to
  \<open>0x2008\<close> (1027 units) prints one record without a mapping at \<open>0x0FFC\<close>, the 1024
  records of the mapped page with the physical addresses \<open>0x5000\<close> to \<open>0x5FFC\<close>, and
  two records without a mapping at \<open>0x2000\<close> and \<open>0x2004\<close>.
\<close>

lemma example_page_walk:
  assumes "va \<le> x" "unat x < (unat va div 2 ^ 12 + 1) * 2 ^ 12"
  shows "pgdir_walk s pgdir x = pgdir_walk s pgdir va"
  using same_page [OF assms] by (rule pgdir_walk_same_page)

lemma spec_scenario:
  "mon_dumpmemory example_state False 0x0FFC 1027 =
     Some (Inr (Virt_unmapped 0xFFC #
                map (\<lambda>x. Virt_mapped x (0x5000 OR PGOFF x) (mem example_state x))
                  (units 0x1000 0x2000) @
                [Virt_unmapped 0x2000, Virt_unmapped 0x2004]))"
proof -
  let ?s = example_state
  have r: "ROUNDDOWN 0xFFC UNIT_LEN = 0xFFC"
    by (simp add: ROUNDDOWN_def UNIT_LEN_def)
  have e: "(0xFFC :: u32) + 1027 * UNIT_LEN = 0x2008"
    by (simp add: UNIT_LEN_def)
  have split: "units 0xFFC 0x2008 = units 0xFFC 0x1000 @ units 0x1000 0x2000 @ units 0x2000 0x2008"
  proof -
    have "units 0xFFC 0x2008 = units 0xFFC (0x1000 :: u32) @ units 0x1000 0x2008"
      by (rule units_append) simp_all
    moreover have "units 0x1000 0x2008 = units 0x1000 (0x2000 :: u32) @ units 0x2000 0x2008"
      by (rule units_append) simp_all
    ultimately show ?thesis by simp
  qed
  have first: "units 0xFFC 0x1000 = [0xFFC :: u32]"
    using units_single [of "0xFFC"] by simp
  have last: "units 0x2000 0x2008 = [0x2000 :: u32, 0x2004]"
    by (simp add: units_def two)
  have w0: "pgdir_walk ?s (kern_pgdir ?s) 0xFFC = 0xF0111000"
    and w1: "pgdir_walk ?s (kern_pgdir ?s) 0x1000 = 0xF0111004"
    and w2: "pgdir_walk ?s (kern_pgdir ?s) 0x2000 = 0xF0111008"
    and w3: "pgdir_walk ?s (kern_pgdir ?s) 0x2004 = 0xF0111008"
    by (simp_all add: example_state_def pgdir_walk_def PDX_def PTX_def PTE_P_def PTE_ADDR_def
        KERNBASE_def)
  have m: "mem ?s 0xF0111000 = 0" "mem ?s 0xF0111004 = 0x5007" "mem ?s 0xF0111008 = 0"
    by (simp_all add: example_state_def)
  have page: "pgdir_walk ?s (kern_pgdir ?s) x = 0xF0111004" if "x \<in> set (units 0x1000 0x2000)" for x
  proof -
    from units_bounds [OF _ that] have "0x1000 \<le> x" "x < 0x2000" by simp_all
    then have "pgdir_walk ?s (kern_pgdir ?s) x = pgdir_walk ?s (kern_pgdir ?s) 0x1000"
      by (intro example_page_walk) (simp_all add: word_less_nat_alt)
    then show ?thesis by (simp add: w1)
  qed
  have walks: "pgdir_walk ?s (kern_pgdir ?s) x \<in> {0xF0111000, 0xF0111004, 0xF0111008}"
    if "x \<in> set (units 0xFFC 0x2008)" for x
    using that page by (auto simp add: split first last w0 w2 w3)
  have "mon_dumpmemory ?s False 0xFFC 1027 =
    Some (Inr (map (virt_record ?s)
      (units (ROUNDDOWN 0xFFC UNIT_LEN) (ROUNDDOWN 0xFFC UNIT_LEN + 1027 * UNIT_LEN))))"
  proof (rule mon_dumpmemory_virt_units)
    show "unat (ROUNDDOWN 0xFFC UNIT_LEN) + 4 * unat (1027 :: u32) < 2 ^ 32"
      by (simp add: r)
  next
    fix x
    assume "x \<in> set (units (ROUNDDOWN 0xFFC UNIT_LEN) (ROUNDDOWN 0xFFC UNIT_LEN + 1027 * UNIT_LEN))"
    then have x: "x \<in> set (units 0xFFC 0x2008)"
      by (simp add: r e)
    from units_bounds [OF _ x] have "x < 0x2008" by simp
    then have "unat x div 2 ^ 22 = 0"
      by (simp add: word_less_nat_alt)
    then have "PDX x = 0"
      by (simp add: word_unat_eq_iff unat_PDX)
    with walks [OF x] show "\<not> index_carry ?s x \<and> null_is_absent ?s x"
      by (auto simp add: index_carry_def null_is_absent_def)
  qed
  moreover have "map (virt_record ?s) (units 0x1000 0x2000) =
      map (\<lambda>x. Virt_mapped x (0x5000 OR PGOFF x) (mem ?s x)) (units 0x1000 0x2000)"
    by (rule map_cong) (simp_all add: virt_record_def page m PTE_P_def PTE_ADDR_def)
  ultimately show ?thesis
    by (simp add: r e split first last virt_record_def w0 w2 w3 m PTE_P_def)
qed

section \<open>showmapping\<close>

lemmas showmapping_loop_induct =
  showmapping_loop.raw_induct [rotated 1, consumes 1, case_names step]

lemma print_pte_line: "KERNBASE \<le> kern_pgdir s \<Longrightarrow> print_pte s pte = Inr (pte_line s pte)"
  by (auto simp add: print_pte_def pte_line_def PADDR_def)

lemma page_aligned_le:
  fixes a :: u32
  assumes "4096 dvd unat a"
  shows "a \<le> 0xFFFFF000"
proof -
  from assms obtain k where k: "unat a = 4096 * k" ..
  have "unat a < 2 ^ 32"
    using unsigned_less [of a, where 'a = nat] by simp
  with k have "k < 2 ^ 20" by simp
  then have "4096 * k \<le> 4096 * (2 ^ 20 - 1)" by simp
  with k show ?thesis
    by (simp add: word_le_nat_alt)
qed

lemma page_aligned_next:
  fixes a :: u32
  assumes "4096 dvd unat a"
  shows "4096 dvd unat (a + PGSIZE)"
proof -
  have "(4096::nat) dvd unat a + 4096" "(4096::nat) dvd 2 ^ 32"
    using assms by simp_all
  then have "4096 dvd (unat a + 4096) mod 2 ^ 32"
    by (rule dvd_mod)
  then show ?thesis
    by (simp add: PGSIZE_def unat_word_ariths)
qed

text \<open>
  When the end of the range is in the last page of the address space, every page address
  is \<open>\<le> end_addr\<close>, and \<open>start_addr += PGSIZE\<close> wraps around to 0 after the last page:
  the loop never returns.
\<close>

lemma showmapping_loop_not_top:
  "showmapping_loop s a e acc = Some y \<Longrightarrow>
   \<not> (KERNBASE \<le> kern_pgdir s \<and> e = 0xFFFFF000 \<and> 4096 dvd unat a)"
proof (induction s a e acc y rule: showmapping_loop_induct)
  case (step loop s a e acc y)
  show ?case
  proof
    assume c: "KERNBASE \<le> kern_pgdir s \<and> e = 0xFFFFF000 \<and> 4096 dvd unat a"
    then have "a \<le> e"
      by (simp add: page_aligned_le)
    with step(2) c have "loop s (a + PGSIZE) e
        (acc @ [VA_prefix a, pte_line s (pgdir_walk s (kern_pgdir s) a)]) = Some y"
      by (simp add: print_pte_line)
    from step(1) [OF this] c show False
      by (simp add: page_aligned_next)
  qed
qed

lemma mon_showmapping_top_page:
  assumes "KERNBASE \<le> kern_pgdir s" "0xFFFFF000 \<le> end_addr"
  shows "mon_showmapping s start_addr end_addr = None"
proof (cases "mon_showmapping s start_addr end_addr")
  case None
  then show ?thesis .
next
  case (Some y)
  then have "showmapping_loop s (ROUNDDOWN start_addr PGSIZE) 0xFFFFF000
      [Start_end (ROUNDDOWN start_addr PGSIZE) 0xFFFFF000] = Some y"
    by (simp add: mon_showmapping_def Let_def ROUNDDOWN_top_page [OF assms(2)])
  from showmapping_loop_not_top [OF this] assms(1) show ?thesis
    by (simp add: ROUNDDOWN_page)
qed

text \<open>
  C10 at two failing inputs, in the example state: \<open>showmapping 0xfffff000 0xfffff000\<close>,
  for which the claim has one record, and \<open>showmapping 0xf0000000 0xffffffff\<close>, for which
  it has one record for each of the \<open>0x10000\<close> pages. Neither returns.
\<close>

theorem mon_showmapping_never_returns:
  "mon_showmapping example_state 0xFFFFF000 0xFFFFF000 = None
   \<and> mon_showmapping example_state 0xF0000000 0xFFFFFFFF = None"
proof -
  have k: "KERNBASE \<le> kern_pgdir example_state"
    by (simp add: KERNBASE_def example_state_def)
  show ?thesis
    using mon_showmapping_top_page [OF k, of "0xFFFFF000" "0xFFFFF000"]
      mon_showmapping_top_page [OF k, of "0xFFFFFFFF" "0xF0000000"]
    by simp
qed

lemma pages_empty: "\<not> a \<le> b \<Longrightarrow> pages a b = []"
  by (simp add: pages_def)

lemma unat_plus_page:
  fixes a b :: u32
  assumes "a \<le> b" "unat b + 4096 < 2 ^ 32"
  shows "unat (a + PGSIZE) = unat a + 4096"
  using assms by (simp add: word_le_nat_alt unat_word_ariths PGSIZE_def)

lemma pages_step:
  assumes "a \<le> b" "unat b + 4096 < 2 ^ 32"
  shows "pages a b = a # pages (a + PGSIZE) b"
proof -
  have u: "unat (a + PGSIZE) = unat a + 4096"
    using assms by (rule unat_plus_page)
  have le: "unat a \<le> unat b"
    using assms(1) by (simp add: word_le_nat_alt)
  have head: "map (\<lambda>i. a + PGSIZE * of_nat i) [0..<Suc k] =
      a # map (\<lambda>i. a + PGSIZE + PGSIZE * of_nat i) [0..<k]" for k
    by (simp add: upt_conv_Cons map_Suc_upt [symmetric] algebra_simps del: upt_Suc)
  show ?thesis
  proof (cases "a + PGSIZE \<le> b")
    case True
    then have "unat a + 4096 \<le> unat b"
      by (simp add: word_le_nat_alt u)
    then have "unat b - unat a = (unat b - (unat a + 4096)) + 4096"
      by simp
    then have "(unat b - unat a) div 4096 = ((unat b - (unat a + 4096)) + 4096) div 4096"
      by (rule arg_cong)
    then have k: "(unat b - unat a) div 4096 = Suc ((unat b - (unat a + 4096)) div 4096)"
      by (simp only: div_add_self2 Suc_eq_plus1)
    show ?thesis
      using assms(1) True unfolding pages_def u k by (simp only: head if_True)
  next
    case False
    then have "unat b < unat a + 4096"
      by (simp add: word_le_nat_alt u)
    with le have "(unat b - unat a) div 4096 = 0"
      by simp
    with assms(1) False show ?thesis
      by (simp add: pages_def)
  qed
qed

text \<open>
  When the end of the range is below the last page, the command returns with one record
  (the address and the line of \<open>print_pte\<close>) for each page from the aligned start
  through the aligned end, both included.
\<close>

lemma showmapping_loop_pages:
  assumes "KERNBASE \<le> kern_pgdir s" "unat e + 4096 < 2 ^ 32"
  shows "showmapping_loop s a e acc =
    Some (Inr (acc @ concat (map (\<lambda>va. [VA_prefix va, pte_line s (pgdir_walk s (kern_pgdir s) va)])
                       (pages a e))))"
proof (induction "Suc (unat e) - unat a" arbitrary: a acc rule: less_induct)
  case less
  show ?case
  proof (cases "a \<le> e")
    case False
    then show ?thesis
      by (subst showmapping_loop.simps) (simp add: pages_empty)
  next
    case True
    have u: "unat (a + PGSIZE) = unat a + 4096"
      using True assms(2) by (rule unat_plus_page)
    have "unat a \<le> unat e"
      using True by (simp add: word_le_nat_alt)
    then have dec: "Suc (unat e) - unat (a + PGSIZE) < Suc (unat e) - unat a"
      by (simp add: u)
    show ?thesis
      using less [OF dec] True
      by (subst showmapping_loop.simps)
        (simp add: pages_step [OF True assms(2)] print_pte_line [OF assms(1)])
  qed
qed

lemma mon_showmapping_pages:
  assumes "KERNBASE \<le> kern_pgdir s" "end_addr < 0xFFFFF000"
  shows "mon_showmapping s start_addr end_addr =
    Some (Inr (Start_end (ROUNDDOWN start_addr PGSIZE) (ROUNDDOWN end_addr PGSIZE) #
      concat (map (\<lambda>va. [VA_prefix va, pte_line s (pgdir_walk s (kern_pgdir s) va)])
        (pages (ROUNDDOWN start_addr PGSIZE) (ROUNDDOWN end_addr PGSIZE)))))"
proof -
  have "unat (ROUNDDOWN end_addr PGSIZE) \<le> unat end_addr"
    by (simp add: unat_ROUNDDOWN)
  moreover have "unat end_addr < 4294963200"
    using assms(2) by (simp add: word_less_nat_alt)
  ultimately have "unat (ROUNDDOWN end_addr PGSIZE) + 4096 < 2 ^ 32"
    by simp
  from showmapping_loop_pages [OF assms(1) this] show ?thesis
    by (simp add: mon_showmapping_def Let_def)
qed



text \<open>
  The example state: \<open>showmapping 0x1234 0x2fff\<close> prints the page at \<open>0x1000\<close>, mapped
  to \<open>0x5000\<close>, writable and user-accessible, and the page at \<open>0x2000\<close>, not mapped.
\<close>

lemma mon_showmapping_example:
  "mon_showmapping example_state 0x1234 0x2FFF =
     Some (Inr [Start_end 0x1000 0x2000,
                VA_prefix 0x1000, PA_line 0x5000 1 1,
                VA_prefix 0x2000, PA_no_mapping])"
proof -
  have k: "KERNBASE \<le> kern_pgdir example_state"
    by (simp add: KERNBASE_def example_state_def)
  have r: "ROUNDDOWN 0x1234 PGSIZE = 0x1000" "ROUNDDOWN 0x2FFF PGSIZE = 0x2000"
    by (simp_all add: ROUNDDOWN_def PGSIZE_def)
  have p: "pages 0x1000 0x2000 = [0x1000, 0x2000]"
    by (simp add: pages_def PGSIZE_def two)
  have w: "pgdir_walk example_state (kern_pgdir example_state) 0x1000 = 0xF0111004"
    "pgdir_walk example_state (kern_pgdir example_state) 0x2000 = 0xF0111008"
    by (simp_all add: example_state_def pgdir_walk_def PDX_def PTX_def PTE_P_def PTE_ADDR_def
      KERNBASE_def)
  have l: "pte_line example_state 0xF0111004 = PA_line 0x5000 1 1"
    "pte_line example_state 0xF0111008 = PA_no_mapping"
    by (simp_all add: pte_line_def example_state_def PTE_P_def PTE_W_def PTE_U_def PTE_ADDR_def)
  show ?thesis
    using mon_showmapping_pages [OF k, of "0x2FFF" "0x1234"]
    by (simp add: r p w l)
qed

section \<open>The two kinds of absence\<close>

lemma index_carry_bound:
  assumes "\<not> index_carry s va"
  shows "unat va < unat (if pgdir_walk s (kern_pgdir s) va = 0 then PGADDR (PDX va + 1) 0 0
                        else PGADDR (PDX va) (PTX va + 1) 0)"
    and "4 dvd unat (if pgdir_walk s (kern_pgdir s) va = 0 then PGADDR (PDX va + 1) 0 0
                        else PGADDR (PDX va) (PTX va + 1) 0)"
proof -
  let ?b = "if pgdir_walk s (kern_pgdir s) va = 0 then PGADDR (PDX va + 1) 0 0
            else PGADDR (PDX va) (PTX va + 1) 0"
  have b: "unat ?b = (if pgdir_walk s (kern_pgdir s) va = 0 then (unat va div 2 ^ 22 + 1) * 2 ^ 22
                      else (unat va div 2 ^ 12 + 1) * 2 ^ 12)"
    using assms by (simp add: index_carry_def PGADDR_dir PGADDR_page split: if_splits)
  have "unat va < (unat va div 2 ^ 22 + 1) * 2 ^ 22" "unat va < (unat va div 2 ^ 12 + 1) * 2 ^ 12"
    using dividend_less_div_times [of "2 ^ 22" "unat va"]
      dividend_less_div_times [of "2 ^ 12" "unat va"] by (simp_all add: algebra_simps)
  then show "unat va < unat ?b"
    unfolding b by simp
  have "4 dvd (unat va div 2 ^ 22 + 1) * (2 ^ 22 :: nat)" "4 dvd (unat va div 2 ^ 12 + 1) * (2 ^ 12 :: nat)"
    by (simp_all add: dvd_mult)
  then show "4 dvd unat ?b"
    unfolding b by simp
qed

lemma dump_virtmem_one_absent:
  assumes al: "4 dvd unat va" and nw: "unat va + 4 < 2 ^ 32"
    and ic: "\<not> index_carry s va"
    and ab: "pgdir_walk s (kern_pgdir s) va = 0
             \<or> mem s (pgdir_walk s (kern_pgdir s) va) AND PTE_P = 0"
  shows "dump_virtmem s va 4 = Some [Virt_unmapped va]"
proof -
  let ?e = "va + 4"
  let ?b = "if pgdir_walk s (kern_pgdir s) va = 0 then PGADDR (PDX va + 1) 0 0
            else PGADDR (PDX va) (PTX va + 1) 0"
  have ue: "unat ?e = unat va + 4"
    using nw by (simp add: unat_word_ariths)
  have lt: "va < ?e"
    by (simp add: word_less_nat_alt ue)
  have e4: "4 dvd unat ?e"
    using al by (simp add: ue)
  note rb = run_bound [OF lt al e4 index_carry_bound [OF ic]]
  from rb(4) obtain k where k: "unat (MIN_ADDR ?e ?b) - unat va = 4 * k" ..
  have "unat va < unat (MIN_ADDR ?e ?b)" "unat (MIN_ADDR ?e ?b) \<le> unat va + 4"
    using rb(1,2) by (simp_all add: word_less_nat_alt word_le_nat_alt ue)
  with k have "unat (MIN_ADDR ?e ?b) = unat ?e"
    by (cases k) (simp_all add: ue)
  then have n: "MIN_ADDR ?e ?b = ?e"
    by (simp add: word_unat_eq_iff)
  have inner: "dump_unmapped_loop va ?e [] = Some (?e, [Virt_unmapped va])"
    using dump_unmapped_loop_units [OF aligned_bound [OF e4], of va "[]"]
    by (simp add: units_single [OF nw])
  have last: "dump_virtmem_loop s ?e ?e [Virt_unmapped va] = Some [Virt_unmapped va]"
    by (subst dump_virtmem_loop.simps) simp
  have "dump_virtmem_loop s va ?e [] = Some [Virt_unmapped va]"
  proof (cases "pgdir_walk s (kern_pgdir s) va = 0")
    case True
    with n have "MIN_ADDR ?e (PGADDR (PDX va + 1) 0 0) = ?e" by simp
    with lt True inner last show ?thesis
      by (subst dump_virtmem_loop.simps) simp
  next
    case False
    with n have "MIN_ADDR ?e (PGADDR (PDX va) (PTX va + 1) 0) = ?e" by simp
    with lt False ab inner last show ?thesis
      by (subst dump_virtmem_loop.simps) simp
  qed
  then show ?thesis
    by (simp add: dump_virtmem_def)
qed

text \<open>
  Rounding an address down to its unit keeps it in its page, so the walk and the
  addresses of \<open>index_carry\<close> do not tell an address from its unit.
\<close>

lemma rounded_div:
  fixes v a b :: nat
  assumes "a \<noteq> 0"
  shows "(v - v mod a) div (a * b) = v div (a * b)"
proof -
  have "v - v mod a = a * (v div a)"
    by (rule minus_mod_eq_mult_div)
  then have "(v - v mod a) div (a * b) = (a * (v div a)) div (a * b)"
    by (rule arg_cong)
  also have "\<dots> = v div a div b"
    using assms by (rule div_mult_mult1)
  also have "\<dots> = v div (a * b)"
    by (rule div_mult2_eq [symmetric])
  finally show ?thesis .
qed

lemma ROUNDDOWN_unit_page:
  "unat (ROUNDDOWN va UNIT_LEN) div 2 ^ 12 = unat va div 2 ^ 12"
proof -
  have u: "unat (ROUNDDOWN va UNIT_LEN) = unat va - unat va mod 4"
    by (simp add: unat_ROUNDDOWN UNIT_LEN_def)
  have p: "(2::nat) ^ 12 = 4 * 1024"
    by simp
  show ?thesis
    unfolding u p by (rule rounded_div) simp
qed

lemma ROUNDDOWN_unit_index:
  "PDX (ROUNDDOWN va UNIT_LEN) = PDX va" "PTX (ROUNDDOWN va UNIT_LEN) = PTX va"
proof -
  note e = ROUNDDOWN_unit_page [of va]
  show "PTX (ROUNDDOWN va UNIT_LEN) = PTX va"
    by (simp only: word_unat_eq_iff unat_PTX e)
  have "unat (ROUNDDOWN va UNIT_LEN) div 2 ^ 12 div 2 ^ 10 = unat va div 2 ^ 12 div 2 ^ 10"
    by (simp only: e)
  then have "unat (ROUNDDOWN va UNIT_LEN) div 2 ^ 22 = unat va div 2 ^ 22"
    by (simp add: div_mult2_eq [symmetric])
  then show "PDX (ROUNDDOWN va UNIT_LEN) = PDX va"
    by (simp only: word_unat_eq_iff unat_PDX)
qed

lemma ROUNDDOWN_unit_walk:
  "pgdir_walk s pgdir (ROUNDDOWN va UNIT_LEN) = pgdir_walk s pgdir va"
  by (rule pgdir_walk_same_page) (rule ROUNDDOWN_unit_index)+

lemma ROUNDDOWN_unit_index_carry:
  "index_carry s (ROUNDDOWN va UNIT_LEN) = index_carry s va"
  by (simp add: index_carry_def ROUNDDOWN_unit_walk ROUNDDOWN_unit_index)

text \<open>
  Away from the addresses of \<open>index_carry\<close> the run bound lies above the unit, so the
  unit is not the last of the address space.
\<close>

lemma index_carry_no_wrap:
  assumes "\<not> index_carry s a" "4 dvd unat a"
  shows "unat a + 4 < 2 ^ 32"
proof -
  let ?b = "if pgdir_walk s (kern_pgdir s) a = 0 then PGADDR (PDX a + 1) 0 0
            else PGADDR (PDX a) (PTX a + 1) 0"
  note b = index_carry_bound [OF assms(1)]
  from assms(2) obtain k where k: "unat a = 4 * k" ..
  from b(2) obtain l where l: "unat ?b = 4 * l" ..
  from b(1) k l have "k < l" by simp
  then have "4 * k + 4 \<le> 4 * l" by simp
  moreover have "unat ?b < 2 ^ 32"
    using unsigned_less [of ?b, where 'a = nat] by simp
  ultimately show ?thesis
    using k l by simp
qed

text \<open>
  C9, as the code has it. Let \<open>pte\<close> be what the walk of \<open>va\<close> returns, and let it be the
  null pointer (no directory entry) or the address of an entry that is not present; \<open>va\<close>
  is any address, aligned or not. Then:

  \<^item> when \<open>pte\<close> is not the address of the page directory itself, \<open>print_pte\<close> prints
    "PA: No Mapping", in both cases;

  \<^item> when \<open>pte\<close> is the address of the page directory itself and the directory lies at
    or above \<open>KERNBASE\<close> (so that \<open>PADDR\<close> does not panic), \<open>print_pte\<close> takes its
    "corner case" branch and prints the physical address of the directory with
    \<open>PTE_W\<close> 0 and \<open>PTE_U\<close> 0;

  \<^item> when \<open>va\<close> is not an address of \<open>index_carry\<close> (where the dump does not return),
    the virtual-mode dump of one unit at \<open>va\<close> prints the one record "No mapping", "None"
    for the unit that holds \<open>va\<close>, in both cases and whatever \<open>pte\<close> is.
\<close>

theorem absent_reported_alike:
  assumes "pte = pgdir_walk s (kern_pgdir s) va"
    and "pte = 0 \<or> mem s pte AND PTE_P = 0"
  shows "(pte \<noteq> kern_pgdir s \<longrightarrow> print_pte s pte = Inr PA_no_mapping)
       \<and> (pte = kern_pgdir s \<and> KERNBASE \<le> kern_pgdir s \<longrightarrow>
            print_pte s pte = Inr (PA_line (kern_pgdir s - KERNBASE) 0 0))
       \<and> (\<not> index_carry s va \<longrightarrow>
            mon_dumpmemory s False va 1 = Some (Inr [Virt_unmapped (ROUNDDOWN va UNIT_LEN)]))"
proof (intro conjI impI)
  assume "pte \<noteq> kern_pgdir s"
  with assms(2) show "print_pte s pte = Inr PA_no_mapping"
    by (auto simp add: print_pte_def)
next
  assume "pte = kern_pgdir s \<and> KERNBASE \<le> kern_pgdir s"
  with assms(2) show "print_pte s pte = Inr (PA_line (kern_pgdir s - KERNBASE) 0 0)"
    by (auto simp add: print_pte_def PADDR_def)
next
  assume ic: "\<not> index_carry s va"
  let ?a = "ROUNDDOWN va UNIT_LEN"
  have al: "4 dvd unat ?a"
    by (rule ROUNDDOWN_unit)
  have ic': "\<not> index_carry s ?a"
    using ic by (simp add: ROUNDDOWN_unit_index_carry)
  have nw: "unat ?a + 4 < 2 ^ 32"
    using ic' al by (rule index_carry_no_wrap)
  have ab: "pgdir_walk s (kern_pgdir s) ?a = 0
      \<or> mem s (pgdir_walk s (kern_pgdir s) ?a) AND PTE_P = 0"
    using assms by (simp add: ROUNDDOWN_unit_walk)
  have "dump_virtmem s ?a 4 = Some [Virt_unmapped ?a]"
    using al nw ic' ab by (rule dump_virtmem_one_absent)
  then show "mon_dumpmemory s False va 1 = Some (Inr [Virt_unmapped ?a])"
    by (simp add: mon_dumpmemory_def Let_def UNIT_LEN_def)
qed

lemma example_walk_2002:
  "pgdir_walk example_state (kern_pgdir example_state) 0x2002 = 0xF0111008"
  by (simp add: example_state_def pgdir_walk_def PDX_def PTX_def PTE_P_def PTE_ADDR_def
      KERNBASE_def)

lemma example_walk_C00000:
  "pgdir_walk example_state (kern_pgdir example_state) 0x00C00000 = 0"
  by (simp add: example_state_def pgdir_walk_def PDX_def PTX_def PTE_P_def PTE_ADDR_def
      KERNBASE_def)

lemma uvpt_walk_EF400000:
  "pgdir_walk uvpt_state (kern_pgdir uvpt_state) 0xEF400000 = 0xF0110000"
  by (simp add: uvpt_state_def pgdir_walk_def PDX_def PTX_def PTE_P_def PTE_ADDR_def
      KERNBASE_def)

text \<open>
  The example state at \<open>0x00C00000\<close> (no directory entry) and at the unaligned \<open>0x2002\<close>
  (a table entry that is not present, unit \<open>0x2000\<close>), and \<open>uvpt_state\<close> at
  \<open>0xEF400000\<close>, where the walk returns the address of the page directory, whose first
  entry is not present.
\<close>

theorem absent_reported_alike_witness:
  "pgdir_walk example_state (kern_pgdir example_state) 0x00C00000 = 0
   \<and> print_pte example_state 0 = Inr PA_no_mapping
   \<and> mon_dumpmemory example_state False 0x00C00000 1 = Some (Inr [Virt_unmapped 0x00C00000])
   \<and> pgdir_walk example_state (kern_pgdir example_state) 0x2002 = 0xF0111008
   \<and> mem example_state 0xF0111008 AND PTE_P = 0
   \<and> print_pte example_state 0xF0111008 = Inr PA_no_mapping
   \<and> mon_dumpmemory example_state False 0x2002 1 = Some (Inr [Virt_unmapped 0x2000])
   \<and> pgdir_walk uvpt_state (kern_pgdir uvpt_state) 0xEF400000 = 0xF0110000
   \<and> mem uvpt_state 0xF0110000 AND PTE_P = 0
   \<and> print_pte uvpt_state 0xF0110000 = Inr (PA_line 0x00110000 0 0)
   \<and> mon_dumpmemory uvpt_state False 0xEF400000 1 = Some (Inr [Virt_unmapped 0xEF400000])"
proof -
  have e: "mem example_state 0xF0111008 AND PTE_P = 0"
    by (simp add: example_state_def)
  have k: "kern_pgdir example_state = 0xF0110000"
    by (simp add: example_state_def)
  have u: "mem uvpt_state 0xF0110000 AND PTE_P = 0"
    by (simp add: uvpt_state_def)
  have ku: "kern_pgdir uvpt_state = 0xF0110000"
    by (simp add: uvpt_state_def)
  have i1: "\<not> index_carry example_state 0x00C00000"
    by (simp add: index_carry_def example_walk_C00000 PDX_def)
  have i2: "\<not> index_carry example_state 0x2002"
    by (simp add: index_carry_def example_walk_2002 PTX_def)
  have i3: "\<not> index_carry uvpt_state 0xEF400000"
    by (simp add: index_carry_def uvpt_walk_EF400000 PTX_def)
  have r1: "ROUNDDOWN (0x00C00000 :: u32) UNIT_LEN = 0x00C00000"
    by (simp add: ROUNDDOWN_def UNIT_LEN_def)
  have r2: "ROUNDDOWN (0x2002 :: u32) UNIT_LEN = 0x2000"
    by (simp add: ROUNDDOWN_def UNIT_LEN_def)
  have r3: "ROUNDDOWN (0xEF400000 :: u32) UNIT_LEN = 0xEF400000"
    by (simp add: ROUNDDOWN_def UNIT_LEN_def)
  have a: "print_pte example_state 0 = Inr PA_no_mapping
    \<and> mon_dumpmemory example_state False 0x00C00000 1 = Some (Inr [Virt_unmapped 0x00C00000])"
    using absent_reported_alike [where pte = 0 and s = example_state and va = "0x00C00000",
        OF example_walk_C00000 [symmetric]]
    by (simp add: k i1 r1)
  have b: "print_pte example_state 0xF0111008 = Inr PA_no_mapping
    \<and> mon_dumpmemory example_state False 0x2002 1 = Some (Inr [Virt_unmapped 0x2000])"
    using absent_reported_alike [where pte = "0xF0111008" and s = example_state and va = "0x2002",
        OF example_walk_2002 [symmetric]]
    by (simp add: k e i2 r2)
  have c: "print_pte uvpt_state 0xF0110000 = Inr (PA_line 0x00110000 0 0)
    \<and> mon_dumpmemory uvpt_state False 0xEF400000 1 = Some (Inr [Virt_unmapped 0xEF400000])"
    using absent_reported_alike [where pte = "0xF0110000" and s = uvpt_state and va = "0xEF400000",
        OF uvpt_walk_EF400000 [symmetric]]
    by (simp add: ku u i3 r3 KERNBASE_def)
  from a b c e u example_walk_C00000 example_walk_2002 uvpt_walk_EF400000 show ?thesis
    by simp
qed

text \<open>
  C9 as stated fails. In \<open>uvpt_state\<close> the page directory is its own page table for the
  region at \<open>0xEF400000\<close>; the walk of \<open>0xEF400000\<close> returns the address of the
  directory, whose first entry is not present. \<open>print_pte\<close> takes its "corner case"
  branch and prints the physical address of the directory with both flags 0, while for
  \<open>0x00400000\<close>, which has no directory entry, it prints "PA: No Mapping": the two
  absences are told apart.
\<close>

theorem absent_told_apart:
  "pgdir_walk uvpt_state (kern_pgdir uvpt_state) 0x00400000 = 0
   \<and> print_pte uvpt_state (pgdir_walk uvpt_state (kern_pgdir uvpt_state) 0x00400000)
       = Inr PA_no_mapping
   \<and> pgdir_walk uvpt_state (kern_pgdir uvpt_state) 0xEF400000 = 0xF0110000
   \<and> mem uvpt_state 0xF0110000 AND PTE_P = 0
   \<and> print_pte uvpt_state (pgdir_walk uvpt_state (kern_pgdir uvpt_state) 0xEF400000)
       = Inr (PA_line 0x00110000 0 0)"
proof -
  have w1: "pgdir_walk uvpt_state (kern_pgdir uvpt_state) 0x00400000 = 0"
    by (simp add: uvpt_state_def pgdir_walk_def PDX_def PTX_def PTE_P_def PTE_ADDR_def
      KERNBASE_def)
  have w2: "pgdir_walk uvpt_state (kern_pgdir uvpt_state) 0xEF400000 = 0xF0110000"
    by (simp add: uvpt_state_def pgdir_walk_def PDX_def PTX_def PTE_P_def PTE_ADDR_def
      KERNBASE_def)
  have e: "mem uvpt_state 0xF0110000 AND PTE_P = 0"
    by (simp add: uvpt_state_def)
  have p1: "print_pte uvpt_state 0 = Inr PA_no_mapping"
    by (simp add: print_pte_def uvpt_state_def)
  have p2: "print_pte uvpt_state 0xF0110000 = Inr (PA_line 0x00110000 0 0)"
    by (simp add: print_pte_def uvpt_state_def PADDR_def KERNBASE_def PTE_P_def)
  from w1 w2 e p1 p2 show ?thesis by simp
qed

end
